theory Spec2Isabelle
  imports Complex_Main
begin

section \<open>The ingestion pipeline of \<^verbatim>\<open>ingest.py\<close> (class \<^verbatim>\<open>Ingest\<close>)\<close>

text \<open>
  A shallow embedding of \<^verbatim>\<open>src/cosmos/ingestion/ingest/ingest.py\<close>. The functions the
  module imports from elsewhere (\<^verbatim>\<open>parse_pdf\<close>, \<^verbatim>\<open>resize_png\<close>, the stage functions,
  \<^verbatim>\<open>aggregate_router\<close>, the Ghostscript subprocess, the image decoder, the wildcard matching
  of \<^verbatim>\<open>fnmatch\<close>) are parameters, collected in the record \<open>env\<close>. Every \<^verbatim>\<open>raise\<close> and every exception that crosses a
  call of the module is a value \<open>Inl e\<close> of a sum type.
\<close>

subsection \<open>Exceptions and Python primitives\<close>

datatype exn =
    NotImplementedError string
  | AttributeError
  | TypeError
  | ValueError
  | KeyError string
  | IndexError
  | ZeroDivisionError
  | PyException string

text \<open>\<^verbatim>\<open>os.path.basename\<close>: what follows the last slash.\<close>

definition basename :: "string \<Rightarrow> string" where
  "basename p = rev (takeWhile (\<lambda>c. c \<noteq> CHR ''/'') (rev p))"

text \<open>\<^verbatim>\<open>os.path.join\<close> of two components.\<close>

definition path_join :: "string \<Rightarrow> string \<Rightarrow> string" where
  "path_join a b =
     (if b \<noteq> [] \<and> hd b = CHR ''/'' then b
      else if a = [] \<or> last a = CHR ''/'' then a @ b
      else a @ ''/'' @ b)"

text \<open>How an f-string renders a value that may be \<^verbatim>\<open>None\<close>.\<close>

definition fmt_opt :: "string option \<Rightarrow> string" where
  "fmt_opt v = (case v of None \<Rightarrow> ''None'' | Some s \<Rightarrow> s)"

text \<open>
  \<^verbatim>\<open>int(c)\<close> for a one-character string: the digit's value, \<^verbatim>\<open>ValueError\<close> for any
  other character (file names are byte strings here).
\<close>

definition int_of_char :: "char \<Rightarrow> exn + nat" where
  "int_of_char c =
     (if c = CHR ''0'' then Inr 0 else if c = CHR ''1'' then Inr 1
      else if c = CHR ''2'' then Inr 2 else if c = CHR ''3'' then Inr 3
      else if c = CHR ''4'' then Inr 4 else if c = CHR ''5'' then Inr 5
      else if c = CHR ''6'' then Inr 6 else if c = CHR ''7'' then Inr 7
      else if c = CHR ''8'' then Inr 8 else if c = CHR ''9'' then Inr 9
      else Inl ValueError)"

text \<open>\<^verbatim>\<open>seq[i]\<close> on a value that may be \<^verbatim>\<open>None\<close> (not subscriptable) or too short.\<close>

definition subscript :: "'a list option \<Rightarrow> nat \<Rightarrow> exn + 'a" where
  "subscript s i =
     (case s of
        None \<Rightarrow> Inl TypeError
      | Some xs \<Rightarrow> if i < length xs then Inr (xs ! i) else Inl IndexError)"

text \<open>
  The pieces of \<^verbatim>\<open>glob.glob(f'{tmp_dir}/{pdf_name}_?')\<close> (POSIX). \<^verbatim>\<open>glob.has_magic\<close>: the
  string holds one of the wildcard characters \<^verbatim>\<open>*\<close>, \<^verbatim>\<open>?\<close> and \<^verbatim>\<open>[\<close>.
\<close>

definition has_magic :: "string \<Rightarrow> bool" where
  "has_magic p = list_ex (\<lambda>c. c = CHR ''*'' \<or> c = CHR ''?'' \<or> c = CHR ''['') p"

text \<open>\<^verbatim>\<open>glob._ishidden\<close>: the name starts with a dot.\<close>

definition ishidden :: "string \<Rightarrow> bool" where
  "ishidden p = (p \<noteq> [] \<and> hd p = CHR ''.'')"

text \<open>
  The directory part that \<^verbatim>\<open>os.path.split\<close> gives for the pattern. The document name holds
  no slash, so the pattern splits at the slash of the f-string: the head is \<^verbatim>\<open>tmp_dir\<close> and
  that slash, with the slashes at its end removed unless it is made of slashes only.
\<close>

definition glob_dirname :: "string \<Rightarrow> string" where
  "glob_dirname d =
     (let head = d @ ''/''
      in if list_all (\<lambda>c. c = CHR ''/'') head then head
         else rev (dropWhile (\<lambda>c. c = CHR ''/'') (rev head)))"

subsection \<open>Data\<close>

text \<open>A row of the geometry table \<^verbatim>\<open>meta\<close> returned by \<^verbatim>\<open>parse_pdf\<close>.\<close>

record 'n meta_row =
  page :: int
  x1 :: 'n
  y1 :: 'n
  x2 :: 'n
  y2 :: 'n
  span :: string

text \<open>
  The dictionary pickled for one page. \<^verbatim>\<open>pdf_to_images\<close> writes the first eight keys; the
  stages add \<^verbatim>\<open>content\<close> (triples of box, (score, class) list and text) and
  \<^verbatim>\<open>xgboost_content\<close>, which are absent (\<open>None\<close>) until then.
\<close>

record 'n artifact =
  orig_w :: 'n
  orig_h :: 'n
  obj_dataset_id :: string
  obj_pdf_name :: string
  meta :: "'n meta_row list option"
  dims :: "'n list"
  pdf_limit :: "'n list option"
  obj_page_num :: nat
  obj_content :: "('n list \<times> ('n \<times> string) list \<times> string) list option"
  xgboost_content :: "('n list \<times> string \<times> string \<times> 'n) list option"

text \<open>
  A work item. With a tmp directory \<^verbatim>\<open>pdf_to_images\<close> returns the tuple
  \<^verbatim>\<open>(tmp_dir, pdf_name, page_num)\<close> and pickles the dictionary beside the image:
  \<open>Pickled\<close> holds the tuple and the pickled dictionary it refers to. Without one it
  returns the dictionary itself (\<open>InMemory\<close>).
\<close>

datatype 'n item =
    Pickled string string nat (obj_of: "'n artifact")
  | InMemory (obj_of: "'n artifact")

text \<open>
  One dictionary \<^verbatim>\<open>final_obj\<close> of the collector, and the row of \<^verbatim>\<open>result_df\<close> it becomes
  once the columns \<^verbatim>\<open>detect_cls\<close> and \<^verbatim>\<open>detect_score\<close> are added.
\<close>

record 'n final_obj =
  pdf_name :: string
  dataset_id :: string
  page_num :: nat
  bounding_box :: "'n list"
  classes :: "string list"
  scores :: "'n list"
  content :: string
  postprocess_cls :: "string option"
  postprocess_score :: "'n option"

record 'n result_row = "'n final_obj" +
  detect_cls :: string
  detect_score :: 'n

text \<open>The code of this repository that \<^verbatim>\<open>ingest.py\<close> imports, and the outside world.\<close>

record ('n, 'g) env =
  get_pdf_names :: "string \<Rightarrow> string option list"
  parse_pdf :: "string \<Rightarrow> exn + ('n meta_row list option \<times> 'n list option)"
  gs :: "string \<Rightarrow> string \<Rightarrow> string list"
  fnmatchcase :: "string \<Rightarrow> string \<Rightarrow> bool"
  glob_dirs :: "string \<Rightarrow> string \<Rightarrow> string list"
  image_open :: "string \<Rightarrow> exn + ('n \<times> 'n)"
  resize_png :: "'n \<times> 'n \<Rightarrow> 'n \<times> 'n"
  truediv :: "'n \<Rightarrow> 'n \<Rightarrow> exn + 'n"
  mul :: "'n \<Rightarrow> 'n \<Rightarrow> 'n"
  propose_and_pad :: "bool \<Rightarrow> 'n item \<Rightarrow> exn + 'n item"
  detect :: "'n item \<Rightarrow> exn + 'n item"
  regroup :: "'n item \<Rightarrow> exn + 'n item"
  pool_text :: "bool \<Rightarrow> 'n item \<Rightarrow> exn + 'n item"
  xgboost_postprocess :: "'n item \<Rightarrow> exn + 'n item"
  rules_postprocess :: "'n item \<Rightarrow> exn + 'n item"
  aggregate_router :: "'n result_row list \<Rightarrow> string \<Rightarrow> exn + 'g"

subsection \<open>\<^verbatim>\<open>Ingest.pdf_to_images\<close>\<close>

text \<open>
  Lines 243 to 246: the rows of the geometry table whose \<^verbatim>\<open>page\<close> is \<^verbatim>\<open>page_num - 1\<close> get
  their coordinates multiplied by the scale of their axis; the other rows are kept.
\<close>

definition scale_meta ::
  "('n \<Rightarrow> 'n \<Rightarrow> 'n) \<Rightarrow> nat \<Rightarrow> 'n \<Rightarrow> 'n \<Rightarrow> 'n meta_row list \<Rightarrow> 'n meta_row list" where
  "scale_meta mult pn scale_w scale_h rows =
     map (\<lambda>r. if page r = int pn - 1
               then r\<lparr>x1 := mult (x1 r) scale_w, x2 := mult (x2 r) scale_w,
                      y1 := mult (y1 r) scale_h, y2 := mult (y2 r) scale_h\<rparr>
               else r) rows"

text \<open>
  The body of the loop over the globbed file names (lines 220 to 259) for one file:
  the page number is the last character of the name, the image is decoded and resized,
  and when the document has a geometry table the original extents are replaced by
  \<^verbatim>\<open>limit[2]\<close> and \<^verbatim>\<open>limit[3]\<close> and the table is rescaled. Images are modelled by their
  size.
\<close>

definition page_obj ::
  "('n::zero, 'g) env \<Rightarrow> string \<Rightarrow> string option \<Rightarrow> string \<Rightarrow>
   'n meta_row list option \<Rightarrow> 'n list option \<Rightarrow> string \<Rightarrow> exn + 'n item" where
  "page_obj E did tmp_dir pname mt limit image_path =
     (case int_of_char (last image_path) of
        Inl _ \<Rightarrow> Inl (PyException image_path)
      | Inr pn \<Rightarrow>
          (case image_open E image_path of
             Inl e \<Rightarrow> Inl e
           | Inr img_size \<Rightarrow>
               (let (w, h) = resize_png E img_size;
                    mk = (\<lambda>ow oh m2.
                      \<lparr>orig_w = ow, orig_h = oh, obj_dataset_id = did, obj_pdf_name = pname,
                       meta = m2, dims = [0, 0, w, h], pdf_limit = limit, obj_page_num = pn,
                       obj_content = None, xgboost_content = None\<rparr>);
                    wrap = (\<lambda>obj. case tmp_dir of
                                     Some d \<Rightarrow> Pickled d pname pn obj
                                   | None \<Rightarrow> InMemory obj)
                in case mt of
                     None \<Rightarrow> Inr (wrap (mk (fst img_size) (snd img_size) None))
                   | Some rows \<Rightarrow>
                       (case subscript limit 2 of
                          Inl e \<Rightarrow> Inl e
                        | Inr ow \<Rightarrow>
                            (case subscript limit 3 of
                               Inl e \<Rightarrow> Inl e
                             | Inr oh \<Rightarrow>
                                 (case truediv E w ow of
                                    Inl e \<Rightarrow> Inl e
                                  | Inr scale_w \<Rightarrow>
                                      (case truediv E h oh of
                                         Inl e \<Rightarrow> Inl e
                                       | Inr scale_h \<Rightarrow>
                                           Inr (wrap (mk ow oh
                                             (Some (scale_meta (mul E) pn scale_w scale_h rows)))))))))))"

text \<open>The loop itself: the first exception ends it.\<close>

fun page_objs ::
  "('n::zero, 'g) env \<Rightarrow> string \<Rightarrow> string option \<Rightarrow> string \<Rightarrow>
   'n meta_row list option \<Rightarrow> 'n list option \<Rightarrow> string list \<Rightarrow> exn + 'n item list" where
  "page_objs E did tmp_dir pname mt limit [] = Inr []"
| "page_objs E did tmp_dir pname mt limit (image_path # names) =
     (case page_obj E did tmp_dir pname mt limit image_path of
        Inl e \<Rightarrow> Inl e
      | Inr obj \<Rightarrow>
          (case page_objs E did tmp_dir pname mt limit names of
             Inl e \<Rightarrow> Inl e
           | Inr objs \<Rightarrow> Inr (obj # objs)))"

text \<open>
  \<^verbatim>\<open>fnmatch\<close> of a directory entry against the pattern \<^verbatim>\<open>{pdf_name}_?\<close>. The pattern is
  translated piece by piece, and nothing after the document name closes a bracket, so
  an entry matches when it is a body, an underscore and exactly one more character (the
  final \<^verbatim>\<open>?\<close>), where the body matches the document name alone: it is the name when that
  holds no wildcard character, and otherwise \<open>fnmatchcase E body pname\<close> says so (the
  wildcard matching of the library is left to the environment).
\<close>

definition fnmatch_page :: "('n, 'g) env \<Rightarrow> string \<Rightarrow> string \<Rightarrow> bool" where
  "fnmatch_page E pname x =
     (2 \<le> length x \<and> x ! (length x - 2) = CHR ''_''
      \<and> (let body = take (length x - 2) x
         in if has_magic pname then fnmatchcase E body pname else body = pname))"

text \<open>
  Lines 208 to 218: Ghostscript is run (its exit status is never looked at) and the page
  images are globbed. \<open>gs E d fname\<close> stands for the subprocess on the file: it returns the
  entries of the directory \<open>d\<close> when the subprocess is over, in the order the directory
  lists them. As \<^verbatim>\<open>glob.glob\<close> does: the directory is \<^verbatim>\<open>tmp_dir\<close> itself, or when that holds
  a wildcard character the directories \<open>glob_dirs E\<close> finds for it; in each, the entries
  that start with a dot are dropped unless the pattern does, the others are matched
  against \<^verbatim>\<open>{pdf_name}_?\<close>, and the matches are joined to the directory.
\<close>

definition page_images :: "('n, 'g) env \<Rightarrow> string option \<Rightarrow> string \<Rightarrow> string \<Rightarrow> string list" where
  "page_images E tmp_dir pname fname =
     (let dirname = glob_dirname (fmt_opt tmp_dir);
          pat = pname @ ''_?'';
          dirs = (if has_magic dirname then glob_dirs E dirname fname else [dirname])
      in concat (map (\<lambda>d. map (path_join d)
                             (filter (fnmatch_page E pname)
                                (filter (\<lambda>x. ishidden pat \<or> \<not> ishidden x) (gs E d fname))))
                   dirs))"

text \<open>
  \<^verbatim>\<open>pdf_to_images(cls, dataset_id, tmp_dir, filename)\<close>. \<open>Inr None\<close> is the \<^verbatim>\<open>None\<close> returned
  for no file name; any exception of \<^verbatim>\<open>parse_pdf\<close> is caught and gives the empty list.
\<close>

definition pdf_to_images ::
  "('n::zero, 'g) env \<Rightarrow> string \<Rightarrow> string option \<Rightarrow> string option \<Rightarrow>
   exn + 'n item list option" where
  "pdf_to_images E did tmp_dir filename =
     (case filename of
        None \<Rightarrow> Inr None
      | Some fname \<Rightarrow>
          (let pname = basename fname in
           case parse_pdf E fname of
             Inl _ \<Rightarrow> Inr (Some [])
           | Inr (mt, limit) \<Rightarrow>
               (let names = page_images E tmp_dir pname fname
                in case page_objs E did tmp_dir pname mt limit names of
                     Inl e \<Rightarrow> Inl e
                   | Inr objs \<Rightarrow> Inr (Some objs))))"

subsection \<open>The Dask client and the outside world\<close>

text \<open>
  What a run leaves behind: the tasks handed to the client (one entry per task, in the
  order of submission, with the resource each asks for), the parquet files written and
  the directories removed.
\<close>

datatype stage =
    ProposeAndPad bool
  | Detect
  | Regroup
  | PoolText bool
  | XgboostPostprocess
  | RulesPostprocess

datatype task = PdfToImages | Stage stage

datatype resource = Process | GPU

datatype ('n, 'g) parquet =
    ResultTable "'n result_row list"
  | AggregateTable 'g

record ('n, 'g) world =
  submitted :: "(task \<times> resource) list"
  written :: "(string \<times> ('n, 'g) parquet) list"
  removed :: "string list"

text \<open>
  \<^verbatim>\<open>client.map(f, futures, resources=...)\<close>: one task per input. A future is the value
  its \<^verbatim>\<open>result()\<close> gives, or the exception it raises; a task whose input is a failed
  future fails with the same exception, and its function is not run. A plain argument
  (\<^verbatim>\<open>client.submit(f, x)\<close>, or \<^verbatim>\<open>client.map\<close> over a list of values) is \<open>Inr x\<close>.
\<close>

definition client_map ::
  "task \<Rightarrow> resource \<Rightarrow> ('a \<Rightarrow> exn + 'b) \<Rightarrow> (exn + 'a) list \<Rightarrow> ('n, 'g) world \<Rightarrow>
   (exn + 'b) list \<times> ('n, 'g) world" where
  "client_map t r f futures W =
     (map (\<lambda>fu. case fu of Inl e \<Rightarrow> Inl e | Inr x \<Rightarrow> f x) futures,
      W\<lparr>submitted := submitted W @ replicate (length futures) (t, r)\<rparr>)"

text \<open>
  \<^verbatim>\<open>[i.result() for i in images]\<close>: the values in order, or the exception of the first
  future that failed.
\<close>

fun gather :: "(exn + 'a) list \<Rightarrow> exn + 'a list" where
  "gather [] = Inr []"
| "gather (fu # futures) =
     (case fu of
        Inl e \<Rightarrow> Inl e
      | Inr x \<Rightarrow> (case gather futures of Inl e \<Rightarrow> Inl e | Inr xs \<Rightarrow> Inr (x # xs)))"

subsection \<open>The \<^verbatim>\<open>Ingest\<close> object\<close>

record ingest =
  use_semantic_detection :: bool
  use_xgboost_postprocess :: bool
  use_rules_postprocess :: bool
  tmp_dir :: "string option"
  images_tmp :: "string option"

text \<open>
  \<^verbatim>\<open>__init__\<close>: the attribute \<^verbatim>\<open>images_tmp\<close> exists only when a tmp directory was given.
\<close>

definition init :: "bool \<Rightarrow> string option \<Rightarrow> bool \<Rightarrow> bool \<Rightarrow> ingest" where
  "init semantic tmp xgboost rules =
     \<lparr>use_semantic_detection = semantic, use_xgboost_postprocess = xgboost,
      use_rules_postprocess = rules, tmp_dir = tmp,
      images_tmp = (case tmp of None \<Rightarrow> None | Some d \<Rightarrow> Some (path_join d ''images''))\<rparr>"

subsection \<open>\<^verbatim>\<open>Ingest._ingest_local\<close>\<close>

text \<open>
  Lines 72 to 79: one task per document; the documents that gave \<^verbatim>\<open>None\<close> are dropped
  and the page lists of the others are flattened into one list of work items.
\<close>

definition rasterize ::
  "('n::zero, 'g) env \<Rightarrow> string \<Rightarrow> string \<Rightarrow> string option list \<Rightarrow> ('n, 'g) world \<Rightarrow>
   (exn + 'n item list) \<times> ('n, 'g) world" where
  "rasterize E did itmp pdfnames W =
     (let (images, W) = client_map PdfToImages Process
                          (pdf_to_images E did (Some itmp)) (map Inr pdfnames) W
      in case gather images of
           Inl e \<Rightarrow> (Inl e, W)
         | Inr images \<Rightarrow>
             (let images = filter (\<lambda>i. i \<noteq> None) images;
                  images = concat (map the images)
              in (Inr images, W)))"

text \<open>Lines 81 to 91: the stages, each mapped over the futures of the one before.\<close>

definition stage_chain ::
  "('n, 'g) env \<Rightarrow> ingest \<Rightarrow> bool \<Rightarrow> bool \<Rightarrow> 'n item list \<Rightarrow> ('n, 'g) world \<Rightarrow>
   (exn + 'n item) list \<times> ('n, 'g) world" where
  "stage_chain E self visualize_proposals skip_ocr images W =
     (let (images, W) = client_map (Stage (ProposeAndPad visualize_proposals)) Process
                          (propose_and_pad E visualize_proposals) (map Inr images) W
      in if use_semantic_detection self then
           (let (images, W) = client_map (Stage Detect) GPU (detect E) images W;
                (images, W) = client_map (Stage Regroup) Process (regroup E) images W;
                (images, W) = client_map (Stage (PoolText skip_ocr)) Process
                                (pool_text E skip_ocr) images W
            in if use_xgboost_postprocess self then
                 (let (images, W) = client_map (Stage XgboostPostprocess) Process
                                      (xgboost_postprocess E) images W
                  in if use_rules_postprocess self then
                       client_map (Stage RulesPostprocess) Process (rules_postprocess E) images W
                     else (images, W))
               else (images, W))
         else (images, W))"

text \<open>
  Lines 96 and 97: \<^verbatim>\<open>open(i, 'rb')\<close> and \<^verbatim>\<open>pickle.load\<close>. Only a reference to a pickle can
  be opened.
\<close>

definition load_obj :: "'n item \<Rightarrow> exn + 'n artifact" where
  "load_obj i = (case i of Pickled _ _ _ obj \<Rightarrow> Inr obj | InMemory _ \<Rightarrow> Inl TypeError)"

text \<open>
  Lines 99 to 115 for the detection \<open>c\<close> at index \<open>ind\<close>. \<^verbatim>\<open>zip(*cls)\<close> of an empty list
  yields nothing, so unpacking it into two names raises \<^verbatim>\<open>ValueError\<close>.
\<close>

definition final_obj_of ::
  "'n artifact \<Rightarrow> nat \<Rightarrow> 'n list \<times> ('n \<times> string) list \<times> string \<Rightarrow> exn + 'n final_obj" where
  "final_obj_of obj ind c =
     (case c of (bb, cls, text) \<Rightarrow>
        if cls = [] then Inl ValueError
        else
          (let mk = (\<lambda>pc ps.
                 \<lparr>pdf_name = obj_pdf_name obj, dataset_id = obj_dataset_id obj,
                  page_num = obj_page_num obj, bounding_box = bb,
                  classes = map snd cls, scores = map fst cls, content = text,
                  postprocess_cls = pc, postprocess_score = ps\<rparr>)
           in case xgboost_content obj of
                None \<Rightarrow> Inr (mk None None)
              | Some xs \<Rightarrow>
                  if ind < length xs
                  then (case xs ! ind of (_, pc, _, ps) \<Rightarrow> Inr (mk (Some pc) (Some ps)))
                  else Inl IndexError))"

text \<open>The loop of line 98 over \<^verbatim>\<open>enumerate(obj['content'])\<close>, from index \<open>ind\<close> on.\<close>

fun explode ::
  "'n artifact \<Rightarrow> nat \<Rightarrow> ('n list \<times> ('n \<times> string) list \<times> string) list \<Rightarrow>
   exn + 'n final_obj list" where
  "explode obj ind [] = Inr []"
| "explode obj ind (c # cs) =
     (case final_obj_of obj ind c of
        Inl e \<Rightarrow> Inl e
      | Inr r \<Rightarrow>
          (case explode obj (Suc ind) cs of Inl e \<Rightarrow> Inl e | Inr rs \<Rightarrow> Inr (r # rs)))"

definition collect_obj :: "'n artifact \<Rightarrow> exn + 'n final_obj list" where
  "collect_obj obj =
     (case obj_content obj of
        None \<Rightarrow> Inl (KeyError ''content'')
      | Some cs \<Rightarrow> explode obj 0 cs)"

text \<open>The loop of line 95 over the terminal work items.\<close>

fun collect :: "'n item list \<Rightarrow> exn + 'n final_obj list" where
  "collect [] = Inr []"
| "collect (i # images) =
     (case load_obj i of
        Inl e \<Rightarrow> Inl e
      | Inr obj \<Rightarrow>
          (case collect_obj obj of
             Inl e \<Rightarrow> Inl e
           | Inr rs \<Rightarrow>
               (case collect images of Inl e \<Rightarrow> Inl e | Inr rest \<Rightarrow> Inr (rs @ rest))))"

text \<open>\<^verbatim>\<open>x[0]\<close> on a list.\<close>

definition first :: "'a list \<Rightarrow> exn + 'a" where
  "first xs = (case xs of [] \<Rightarrow> Inl IndexError | x # _ \<Rightarrow> Inr x)"

text \<open>
  Lines 117 to 119. A data frame built from no dictionaries has no column, so looking
  \<^verbatim>\<open>classes\<close> up in it raises \<^verbatim>\<open>KeyError\<close>.
\<close>

definition add_detect_columns :: "'n final_obj list \<Rightarrow> exn + 'n result_row list" where
  "add_detect_columns results =
     (if results = [] then Inl (KeyError ''classes'')
      else
        (case gather (map (\<lambda>r. first (classes r)) results) of
           Inl e \<Rightarrow> Inl e
         | Inr dcs \<Rightarrow>
             (case gather (map (\<lambda>r. first (scores r)) results) of
                Inl e \<Rightarrow> Inl e
              | Inr dss \<Rightarrow>
                  Inr (map (\<lambda>(r, dc, ds).
                         \<lparr>pdf_name = pdf_name r, dataset_id = dataset_id r,
                          page_num = page_num r, bounding_box = bounding_box r,
                          classes = classes r, scores = scores r, content = content r,
                          postprocess_cls = postprocess_cls r,
                          postprocess_score = postprocess_score r,
                          detect_cls = dc, detect_score = ds\<rparr>)
                       (zip results (zip dcs dss))))))"

text \<open>Lines 120 to 123: each aggregation is routed and written, in order.\<close>

fun aggregate_all ::
  "('n, 'g) env \<Rightarrow> string \<Rightarrow> string \<Rightarrow> 'n result_row list \<Rightarrow> string list \<Rightarrow>
   ('n, 'g) world \<Rightarrow> (exn + unit) \<times> ('n, 'g) world" where
  "aggregate_all E did result_path result_df [] W = (Inr (), W)"
| "aggregate_all E did result_path result_df (aggregation # aggregations) W =
     (case aggregate_router E result_df aggregation of
        Inl e \<Rightarrow> (Inl e, W)
      | Inr aggregate_df \<Rightarrow>
          aggregate_all E did result_path result_df aggregations
            (W\<lparr>written := written W @
                  [(path_join result_path (did @ ''_'' @ aggregation @ ''.parquet''),
                    AggregateTable aggregate_df)]\<rparr>))"

text \<open>
  \<^verbatim>\<open>_ingest_local\<close>. The result is \<open>Inr ()\<close> when the method returns and \<open>Inl e\<close> when the
  exception \<open>e\<close> leaves it; the world is what has happened until then.
\<close>

definition ingest_local ::
  "('n::zero, 'g) env \<Rightarrow> ingest \<Rightarrow> string \<Rightarrow> string \<Rightarrow> string \<Rightarrow> bool \<Rightarrow> bool \<Rightarrow>
   string list \<Rightarrow> ('n, 'g) world \<Rightarrow> (exn + unit) \<times> ('n, 'g) world" where
  "ingest_local E self pdf_directory did result_path visualize_proposals skip_ocr
     aggregations W =
     (let pdfnames = get_pdf_names E pdf_directory in
      case images_tmp self of
        None \<Rightarrow> (Inl AttributeError, W)
      | Some itmp \<Rightarrow>
          (case rasterize E did itmp pdfnames W of
             (Inl e, W) \<Rightarrow> (Inl e, W)
           | (Inr images, W) \<Rightarrow>
               (let (images, W) = stage_chain E self visualize_proposals skip_ocr images W
                in case gather images of
                     Inl e \<Rightarrow> (Inl e, W)
                   | Inr images \<Rightarrow>
                       (case collect images of
                          Inl e \<Rightarrow> (Inl e, W)
                        | Inr results \<Rightarrow>
                            (case add_detect_columns results of
                               Inl e \<Rightarrow> (Inl e, W)
                             | Inr result_df \<Rightarrow>
                                 (case aggregate_all E did result_path result_df
                                         aggregations W of
                                    (Inl e, W) \<Rightarrow> (Inl e, W)
                                  | (Inr _, W) \<Rightarrow>
                                      (let W = W\<lparr>written := written W @
                                               [(path_join result_path (did @ ''.parquet''),
                                                 ResultTable result_df)]\<rparr>
                                       in case tmp_dir self of
                                            None \<Rightarrow> (Inl TypeError, W)
                                          | Some d \<Rightarrow>
                                              (Inr (), W\<lparr>removed := removed W @ [d]\<rparr>))))))))"

subsection \<open>\<^verbatim>\<open>Ingest.ingest\<close>\<close>

definition ingest_distributed ::
  "ingest \<Rightarrow> string \<Rightarrow> string \<Rightarrow> ('n, 'g) world \<Rightarrow> (exn + unit) \<times> ('n, 'g) world" where
  "ingest_distributed self pdf_directory did W =
     (Inl (NotImplementedError
        ''Distributed setup currently not implemented via Ingest class. Set a tmp directory.''),
      W)"

definition ingest ::
  "('n::zero, 'g) env \<Rightarrow> ingest \<Rightarrow> string \<Rightarrow> string \<Rightarrow> string \<Rightarrow> bool \<Rightarrow> bool \<Rightarrow>
   string list \<Rightarrow> ('n, 'g) world \<Rightarrow> (exn + unit) \<times> ('n, 'g) world" where
  "ingest E self pdf_directory did result_path skip_ocr visualize_proposals aggregations W =
     (if tmp_dir self \<noteq> None
      then ingest_local E self pdf_directory did result_path visualize_proposals skip_ocr
             aggregations W
      else ingest_distributed self pdf_directory did W)"

subsection \<open>The value of a run and its effects, apart\<close>

text \<open>The work items of lines 72 to 79, without the client's bookkeeping.\<close>

definition pages ::
  "('n::zero, 'g) env \<Rightarrow> string \<Rightarrow> string \<Rightarrow> string option list \<Rightarrow> exn + 'n item list" where
  "pages E did itmp pdfnames =
     (case gather (map (pdf_to_images E did (Some itmp)) pdfnames) of
        Inl e \<Rightarrow> Inl e
      | Inr docs \<Rightarrow> Inr (concat (map the (filter (\<lambda>i. i \<noteq> None) docs))))"

text \<open>The function and the resource of each stage, as lines 81 to 91 pair them.\<close>

fun stage_fn :: "('n, 'g) env \<Rightarrow> stage \<Rightarrow> 'n item \<Rightarrow> exn + 'n item" where
  "stage_fn E (ProposeAndPad v) = propose_and_pad E v"
| "stage_fn E Detect = detect E"
| "stage_fn E Regroup = regroup E"
| "stage_fn E (PoolText s) = pool_text E s"
| "stage_fn E XgboostPostprocess = xgboost_postprocess E"
| "stage_fn E RulesPostprocess = rules_postprocess E"

fun stage_resource :: "stage \<Rightarrow> resource" where
  "stage_resource Detect = GPU"
| "stage_resource _ = Process"

text \<open>A list of stage functions applied to one work item: the first exception ends it.\<close>

fun apply_stages :: "('a \<Rightarrow> exn + 'a) list \<Rightarrow> 'a \<Rightarrow> exn + 'a" where
  "apply_stages [] i = Inr i"
| "apply_stages (f # fs) i = (case f i of Inl e \<Rightarrow> Inl e | Inr j \<Rightarrow> apply_stages fs j)"

text \<open>
  The stage chain as the specification words it (steps 3 to 5): proposal; then detection,
  regroup and text pooling if semantic detection is enabled; then the classifier
  postprocess if that ran and its flag is set; then the rule postprocess if that ran and
  its flag is set.
\<close>

definition spec_stages :: "ingest \<Rightarrow> bool \<Rightarrow> bool \<Rightarrow> stage list" where
  "spec_stages self visualize_proposals skip_ocr =
     [ProposeAndPad visualize_proposals]
     @ (if use_semantic_detection self then [Detect, Regroup, PoolText skip_ocr] else [])
     @ (if use_semantic_detection self \<and> use_xgboost_postprocess self
        then [XgboostPostprocess] else [])
     @ (if use_semantic_detection self \<and> use_xgboost_postprocess self
           \<and> use_rules_postprocess self
        then [RulesPostprocess] else [])"

text \<open>The result table of lines 93 to 119 for the work items \<open>images\<close>.\<close>

definition table ::
  "('n, 'g) env \<Rightarrow> ingest \<Rightarrow> bool \<Rightarrow> bool \<Rightarrow> 'n item list \<Rightarrow> exn + 'n result_row list" where
  "table E self v s images =
     (case gather (map (apply_stages (map (stage_fn E) (spec_stages self v s))) images) of
        Inl e \<Rightarrow> Inl e
      | Inr terminal \<Rightarrow>
          (case collect terminal of
             Inl e \<Rightarrow> Inl e
           | Inr results \<Rightarrow> add_detect_columns results))"

text \<open>What \<open>aggregate_all\<close> returns, and the files it writes, apart.\<close>

fun agg_outcome :: "('n, 'g) env \<Rightarrow> 'n result_row list \<Rightarrow> string list \<Rightarrow> exn + unit" where
  "agg_outcome E df [] = Inr ()"
| "agg_outcome E df (a # ags) =
     (case aggregate_router E df a of Inl e \<Rightarrow> Inl e | Inr _ \<Rightarrow> agg_outcome E df ags)"

fun agg_writes ::
  "('n, 'g) env \<Rightarrow> string \<Rightarrow> string \<Rightarrow> 'n result_row list \<Rightarrow> string list \<Rightarrow>
   (string \<times> ('n, 'g) parquet) list" where
  "agg_writes E did rp df [] = []"
| "agg_writes E did rp df (a # ags) =
     (case aggregate_router E df a of
        Inl e \<Rightarrow> []
      | Inr g \<Rightarrow> (path_join rp (did @ ''_'' @ a @ ''.parquet''), AggregateTable g)
                 # agg_writes E did rp df ags)"

subsection \<open>The specification's words\<close>

text \<open>
  The rows of one work item as the specification words them (section 4.3): one row per
  triple of \<^verbatim>\<open>content\<close>, with the identity of the item and, when there is a postprocess
  output, its class and score at the same index.
\<close>

definition spec_row ::
  "'n artifact \<Rightarrow> nat \<Rightarrow> 'n list \<times> ('n \<times> string) list \<times> string \<Rightarrow> 'n final_obj" where
  "spec_row obj ind c =
     \<lparr>pdf_name = obj_pdf_name obj, dataset_id = obj_dataset_id obj,
      page_num = obj_page_num obj, bounding_box = fst c,
      classes = map snd (fst (snd c)), scores = map fst (fst (snd c)),
      content = snd (snd c),
      postprocess_cls =
        (case xgboost_content obj of None \<Rightarrow> None | Some xs \<Rightarrow> Some (fst (snd (xs ! ind)))),
      postprocess_score =
        (case xgboost_content obj of
           None \<Rightarrow> None
         | Some xs \<Rightarrow> Some (snd (snd (snd (xs ! ind)))))\<rparr>"

definition spec_rows :: "'n artifact \<Rightarrow> 'n final_obj list" where
  "spec_rows obj =
     (case obj_content obj of
        None \<Rightarrow> []
      | Some cs \<Rightarrow> map (\<lambda>(ind, c). spec_row obj ind c) (enumerate 0 cs))"

text \<open>
  The decimal numeral that Ghostscript puts for \<^verbatim>\<open>%d\<close> in the output template
  \<^verbatim>\<open>{tmp_dir}/{pdf_name}_%d\<close> of line 214, and the names of the files it writes for a
  document of \<open>n\<close> pages.
\<close>

definition digit_char :: "nat \<Rightarrow> char" where
  "digit_char k = ''0123456789'' ! k"

fun str_of_nat :: "nat \<Rightarrow> string" where
  "str_of_nat k =
     (if k < 10 then [digit_char k] else str_of_nat (k div 10) @ [digit_char (k mod 10)])"

declare str_of_nat.simps [simp del]

definition page_files :: "string \<Rightarrow> nat \<Rightarrow> string list" where
  "page_files pname n = map (\<lambda>k. pname @ ''_'' @ str_of_nat k) [1..<Suc n]"

subsection \<open>A small run\<close>

text \<open>
  Three documents: \<^verbatim>\<open>a.pdf\<close> with a geometry table, \<^verbatim>\<open>bad.pdf\<close> that \<^verbatim>\<open>parse_pdf\<close> rejects
  and \<^verbatim>\<open>c.pdf\<close> without a table, one page each; numbers are rationals with exact
  arithmetic. The directory \<^verbatim>\<open>in2\<close> holds the two good documents only. No name holds a
  wildcard character, so \<open>fnmatchcase\<close> and \<open>glob_dirs\<close> are never called.
\<close>

definition ex_detections :: "(rat list \<times> (rat \<times> string) list \<times> string) list" where
  "ex_detections =
     [([0, 0, 10, 20], [(9 / 10, ''Figure''), (1 / 10, ''Table'')], ''fig''),
      ([5, 5, 50, 60], [(3 / 4, ''Body Text'')], ''txt'')]"

definition ex_xgboost :: "(rat list \<times> string \<times> string \<times> rat) list" where
  "ex_xgboost = [([0, 0, 10, 20], ''Figure'', ''fig'', 19 / 20),
                 ([5, 5, 50, 60], ''Body Text'', ''txt'', 4 / 5)]"

definition ex_detect :: "rat item \<Rightarrow> exn + rat item" where
  "ex_detect i =
     (case i of
        Pickled d p n obj \<Rightarrow> Inr (Pickled d p n (obj\<lparr>obj_content := Some ex_detections\<rparr>))
      | InMemory obj \<Rightarrow> Inr (InMemory (obj\<lparr>obj_content := Some ex_detections\<rparr>)))"

definition ex_postprocess :: "rat item \<Rightarrow> exn + rat item" where
  "ex_postprocess i =
     (case i of
        Pickled d p n obj \<Rightarrow> Inr (Pickled d p n (obj\<lparr>xgboost_content := Some ex_xgboost\<rparr>))
      | InMemory obj \<Rightarrow> Inr (InMemory (obj\<lparr>xgboost_content := Some ex_xgboost\<rparr>)))"

definition ex_env :: "(rat, nat) env" where
  "ex_env =
     \<lparr>get_pdf_names =
        (\<lambda>d. if d = ''in'' then [Some ''in/a.pdf'', Some ''in/bad.pdf'', Some ''in/c.pdf'']
              else [Some ''in/a.pdf'', Some ''in/c.pdf'']),
      parse_pdf =
        (\<lambda>f. if f = ''in/bad.pdf'' then Inl (PyException ''corrupt'')
              else if f = ''in/a.pdf''
              then Inr (Some [\<lparr>page = 0, x1 = 10, y1 = 20, x2 = 30, y2 = 40, span = ''s''\<rparr>,
                              \<lparr>page = 1, x1 = 1, y1 = 2, x2 = 3, y2 = 4, span = ''t''\<rparr>],
                        Some [0, 0, 600, 800])
              else Inr (None, None)),
      gs = (\<lambda>d f. [''a.pdf_1'', ''c.pdf_1'']),
      fnmatchcase = (\<lambda>x pat. False),
      glob_dirs = (\<lambda>pat f. []),
      image_open = (\<lambda>p. Inr (5000, 6600)),
      resize_png = (\<lambda>s. (1200, 1600)),
      truediv = (\<lambda>a b. if b = 0 then Inl ZeroDivisionError else Inr (a / b)),
      mul = (\<lambda>a b. a * b),
      propose_and_pad = (\<lambda>v i. Inr i),
      detect = ex_detect,
      regroup = (\<lambda>i. Inr i),
      pool_text = (\<lambda>s i. Inr i),
      xgboost_postprocess = ex_postprocess,
      rules_postprocess = (\<lambda>i. Inr i),
      aggregate_router = (\<lambda>df a. if a = ''count'' then Inr (length df) else Inl (KeyError a))\<rparr>"

text \<open>The work item that \<^verbatim>\<open>pdf_to_images\<close> returns for \<^verbatim>\<open>a.pdf\<close>.\<close>

definition ex_page :: "rat item" where
  "ex_page =
     Pickled ''tmp/images'' ''a.pdf'' 1
       \<lparr>orig_w = 600, orig_h = 800, obj_dataset_id = ''ds'', obj_pdf_name = ''a.pdf'',
        meta = Some [\<lparr>page = 0, x1 = 20, y1 = 40, x2 = 60, y2 = 80, span = ''s''\<rparr>,
                     \<lparr>page = 1, x1 = 1, y1 = 2, x2 = 3, y2 = 4, span = ''t''\<rparr>],
        dims = [0, 0, 1200, 1600], pdf_limit = Some [0, 0, 600, 800], obj_page_num = 1,
        obj_content = None, xgboost_content = None\<rparr>"

definition ex_world :: "(rat, nat) world" where
  "ex_world = \<lparr>submitted = [], written = [], removed = []\<rparr>"

text \<open>Two terminal work items: one with two detections and a postprocess output, one with
  no detection; and the rows of the first.\<close>

definition ex_obj :: "rat artifact" where
  "ex_obj =
     \<lparr>orig_w = 600, orig_h = 800, obj_dataset_id = ''ds'', obj_pdf_name = ''a.pdf'',
      meta = None, dims = [0, 0, 1200, 1600], pdf_limit = Some [0, 0, 600, 800],
      obj_page_num = 1, obj_content = Some ex_detections, xgboost_content = Some ex_xgboost\<rparr>"

definition ex_terminal :: "rat item list" where
  "ex_terminal =
     [Pickled ''tmp/images'' ''a.pdf'' 1 ex_obj,
      Pickled ''tmp/images'' ''c.pdf'' 1
        (ex_obj\<lparr>obj_pdf_name := ''c.pdf'', obj_content := Some [], xgboost_content := None\<rparr>)]"

definition ex_rows :: "rat final_obj list" where
  "ex_rows =
     [\<lparr>pdf_name = ''a.pdf'', dataset_id = ''ds'', page_num = 1, bounding_box = [0, 0, 10, 20],
       classes = [''Figure'', ''Table''], scores = [9 / 10, 1 / 10], content = ''fig'',
       postprocess_cls = Some ''Figure'', postprocess_score = Some (19 / 20)\<rparr>,
      \<lparr>pdf_name = ''a.pdf'', dataset_id = ''ds'', page_num = 1, bounding_box = [5, 5, 50, 60],
       classes = [''Body Text''], scores = [3 / 4], content = ''txt'',
       postprocess_cls = Some ''Body Text'', postprocess_score = Some (4 / 5)\<rparr>]"

text \<open>
  The same, where the tmp directory holds the page of \<^verbatim>\<open>a.pdf\<close>, a pickle and the twelve
  pages of \<^verbatim>\<open>c.pdf\<close>.
\<close>

definition ex_env12 :: "(rat, nat) env" where
  "ex_env12 = ex_env\<lparr>gs := (\<lambda>d f. [''a.pdf_1'', ''c.pdf_1.pkl''] @ page_files ''c.pdf'' 12)\<rparr>"

text \<open>
  The work item of \<^verbatim>\<open>c.pdf\<close>, the result table of a run with semantic detection and no
  postprocess, and an environment where Ghostscript leaves nothing but a file whose name
  does not end in a digit.
\<close>

definition ex_page_c :: "rat item" where
  "ex_page_c =
     Pickled ''tmp/images'' ''c.pdf'' 1
       \<lparr>orig_w = 5000, orig_h = 6600, obj_dataset_id = ''ds'', obj_pdf_name = ''c.pdf'',
        meta = None, dims = [0, 0, 1200, 1600], pdf_limit = None, obj_page_num = 1,
        obj_content = None, xgboost_content = None\<rparr>"

definition ex_df_rows :: "string \<Rightarrow> rat result_row list" where
  "ex_df_rows name =
     [\<lparr>pdf_name = name, dataset_id = ''ds'', page_num = 1, bounding_box = [0, 0, 10, 20],
       classes = [''Figure'', ''Table''], scores = [9 / 10, 1 / 10], content = ''fig'',
       postprocess_cls = None, postprocess_score = None,
       detect_cls = ''Figure'', detect_score = 9 / 10\<rparr>,
      \<lparr>pdf_name = name, dataset_id = ''ds'', page_num = 1, bounding_box = [5, 5, 50, 60],
       classes = [''Body Text''], scores = [3 / 4], content = ''txt'',
       postprocess_cls = None, postprocess_score = None,
       detect_cls = ''Body Text'', detect_score = 3 / 4\<rparr>]"

definition ex_df :: "rat result_row list" where
  "ex_df = ex_df_rows ''a.pdf'' @ ex_df_rows ''c.pdf''"

definition ex_env_x :: "(rat, nat) env" where
  "ex_env_x = ex_env\<lparr>gs := (\<lambda>d f. [''a.pdf_x''])\<rparr>"

text \<open>An environment where the page image of \<^verbatim>\<open>c.pdf\<close> cannot be decoded.\<close>

definition ex_env_img :: "(rat, nat) env" where
  "ex_env_img =
     ex_env\<lparr>image_open :=
       (\<lambda>p. if p = ''tmp/images/c.pdf_1'' then Inl (PyException ''cannot identify image file'')
             else Inr (5000, 6600))\<rparr>"

section \<open>Lemmas\<close>

lemma gather_map_Inr: "gather (map Inr xs) = Inr xs"
  by (induction xs) auto

lemma gather_Inr_D: "gather fs = Inr xs \<Longrightarrow> fs = map Inr xs"
  by (induction fs arbitrary: xs) (auto split: sum.splits)

lemma gather_fails: "Inl e \<in> set fs \<Longrightarrow> \<exists>e'. gather fs = Inl e'"
  by (induction fs) (auto split: sum.splits)

lemma gather_append:
  "gather (fs @ hs) =
     (case gather fs of
        Inl e \<Rightarrow> Inl e
      | Inr xs \<Rightarrow> (case gather hs of Inl e \<Rightarrow> Inl e | Inr ys \<Rightarrow> Inr (xs @ ys)))"
  by (induction fs) (auto split: sum.splits)

lemma rasterize_eq:
  "rasterize E did itmp names W =
     (pages E did itmp names,
      W\<lparr>submitted := submitted W @ replicate (length names) (PdfToImages, Process)\<rparr>)"
  by (simp add: rasterize_def pages_def client_map_def Let_def comp_def split: sum.splits)

lemma apply_stages_snoc:
  "apply_stages (fs @ [f]) i = (case apply_stages fs i of Inl e \<Rightarrow> Inl e | Inr x \<Rightarrow> f x)"
  by (induction fs arbitrary: i) (auto split: sum.splits)

lemma client_map_apply:
  "client_map t r f (map (apply_stages fs) images) W =
     (map (apply_stages (fs @ [f])) images,
      W\<lparr>submitted := submitted W @ replicate (length images) (t, r)\<rparr>)"
  by (simp add: client_map_def apply_stages_snoc)

lemma client_map_first:
  "client_map t r f (map Inr images) W =
     (map (apply_stages [f]) images,
      W\<lparr>submitted := submitted W @ replicate (length images) (t, r)\<rparr>)"
  by (auto simp: client_map_def split: sum.splits)

lemma stage_chain_eq:
  "stage_chain E self v s images W =
     (map (apply_stages (map (stage_fn E) (spec_stages self v s))) images,
      W\<lparr>submitted := submitted W @
           concat (map (\<lambda>st. replicate (length images) (Stage st, stage_resource st))
                     (spec_stages self v s))\<rparr>)"
  by (simp add: stage_chain_def spec_stages_def client_map_first client_map_apply)

lemma aggregate_all_eq:
  "aggregate_all E did rp df ags W =
     (agg_outcome E df ags, W\<lparr>written := written W @ agg_writes E did rp df ags\<rparr>)"
  by (induction ags arbitrary: W) (auto split: sum.splits)

lemma ingest_local_eq:
  "ingest_local E self dir did rp v s ags W =
     (case images_tmp self of
        None \<Rightarrow> (Inl AttributeError, W)
      | Some itmp \<Rightarrow>
          (let names = get_pdf_names E dir;
               W1 = W\<lparr>submitted := submitted W @ replicate (length names) (PdfToImages, Process)\<rparr>
           in case pages E did itmp names of
                Inl e \<Rightarrow> (Inl e, W1)
              | Inr images \<Rightarrow>
                  (let W2 = W1\<lparr>submitted := submitted W1 @
                              concat (map (\<lambda>st. replicate (length images) (Stage st, stage_resource st))
                                        (spec_stages self v s))\<rparr>
                   in case table E self v s images of
                        Inl e \<Rightarrow> (Inl e, W2)
                      | Inr df \<Rightarrow>
                          (let W3 = W2\<lparr>written := written W2 @ agg_writes E did rp df ags\<rparr>
                           in case agg_outcome E df ags of
                                Inl e \<Rightarrow> (Inl e, W3)
                              | Inr _ \<Rightarrow>
                                  (let W4 = W3\<lparr>written := written W3 @
                                              [(path_join rp (did @ ''.parquet''), ResultTable df)]\<rparr>
                                   in case tmp_dir self of
                                        None \<Rightarrow> (Inl TypeError, W4)
                                      | Some d \<Rightarrow> (Inr (), W4\<lparr>removed := removed W4 @ [d]\<rparr>))))))"
  by (simp add: ingest_local_def rasterize_eq stage_chain_eq aggregate_all_eq table_def Let_def
           split: option.splits sum.splits)

subsection \<open>The collector\<close>

lemma final_obj_of_eq:
  assumes "fst (snd c) \<noteq> []"
    and "\<And>xs. xgboost_content obj = Some xs \<Longrightarrow> ind < length xs"
  shows "final_obj_of obj ind c = Inr (spec_row obj ind c)"
  using assms
  by (cases c) (auto simp: final_obj_of_def spec_row_def split: option.splits prod.splits)

lemma explode_eq:
  assumes "\<forall>c\<in>set cs. fst (snd c) \<noteq> []"
    and "\<And>xs. xgboost_content obj = Some xs \<Longrightarrow> ind + length cs \<le> length xs"
  shows "explode obj ind cs = Inr (map (\<lambda>(k, c). spec_row obj k c) (enumerate ind cs))"
  using assms
proof (induction cs arbitrary: ind)
  case Nil
  then show ?case by simp
next
  case (Cons c cs)
  have "final_obj_of obj ind c = Inr (spec_row obj ind c)"
    using Cons.prems by (intro final_obj_of_eq) auto
  moreover have "explode obj (Suc ind) cs =
      Inr (map (\<lambda>(k, c). spec_row obj k c) (enumerate (Suc ind) cs))"
    using Cons.prems by (intro Cons.IH) auto
  ultimately show ?case by simp
qed

lemma collect_obj_eq:
  assumes "obj_content obj = Some cs"
    and "\<forall>c\<in>set cs. fst (snd c) \<noteq> []"
    and "\<And>xs. xgboost_content obj = Some xs \<Longrightarrow> length cs \<le> length xs"
  shows "collect_obj obj = Inr (spec_rows obj)"
  using assms explode_eq [of cs obj 0] by (simp add: collect_obj_def spec_rows_def)

lemma length_spec_rows:
  "obj_content obj = Some cs \<Longrightarrow> length (spec_rows obj) = length cs"
  by (simp add: spec_rows_def)

lemma collect_ex_terminal: "collect ex_terminal = Inr ex_rows"
  by (simp add: ex_terminal_def ex_obj_def ex_rows_def load_obj_def collect_obj_def
      final_obj_of_def ex_detections_def ex_xgboost_def)

lemma final_obj_of_shape:
  "final_obj_of obj ind c = Inr r \<Longrightarrow>
     classes r \<noteq> [] \<and> length (classes r) = length (scores r)"
  by (cases c) (auto simp: final_obj_of_def split: option.splits prod.splits if_splits)

lemma explode_shape:
  "explode obj ind cs = Inr rs \<Longrightarrow>
     \<forall>r\<in>set rs. classes r \<noteq> [] \<and> length (classes r) = length (scores r)"
proof (induction cs arbitrary: ind rs)
  case Nil
  then show ?case by simp
next
  case (Cons c cs)
  then show ?case
    by (auto split: sum.splits dest: final_obj_of_shape)
qed

lemma collect_shape:
  "collect images = Inr rs \<Longrightarrow>
     \<forall>r\<in>set rs. classes r \<noteq> [] \<and> length (classes r) = length (scores r)"
proof (induction images arbitrary: rs)
  case Nil
  then show ?case by simp
next
  case (Cons i images)
  from Cons.prems obtain obj cs r1 r2 where
    "explode obj 0 cs = Inr r1" "collect images = Inr r2" "rs = r1 @ r2"
    by (auto simp: collect_obj_def split: sum.splits option.splits)
  with explode_shape [of obj 0 cs r1] Cons.IH [of r2] show ?case by auto
qed

lemma gather_first:
  "\<forall>x\<in>set xs. f x \<noteq> [] \<Longrightarrow> gather (map (\<lambda>x. first (f x)) xs) = Inr (map (\<lambda>x. hd (f x)) xs)"
  by (induction xs) (auto simp: first_def split: list.splits)

lemma add_detect_columns_rows:
  assumes "add_detect_columns results = Inr df"
  shows "length df = length results
         \<and> (\<forall>r\<in>set df. first (classes r) = Inr (detect_cls r)
                       \<and> first (scores r) = Inr (detect_score r))
         \<and> map classes df = map classes results \<and> map scores df = map scores results"
proof -
  from assms obtain dcs dss where
    dcs: "gather (map (\<lambda>r. first (classes r)) results) = Inr dcs" and
    dss: "gather (map (\<lambda>r. first (scores r)) results) = Inr dss" and
    df: "df = map (\<lambda>(r, dc, ds).
                 \<lparr>pdf_name = pdf_name r, dataset_id = dataset_id r,
                  page_num = page_num r, bounding_box = bounding_box r,
                  classes = classes r, scores = scores r, content = content r,
                  postprocess_cls = postprocess_cls r,
                  postprocess_score = postprocess_score r,
                  detect_cls = dc, detect_score = ds\<rparr>)
               (zip results (zip dcs dss))"
    by (auto simp: add_detect_columns_def split: if_splits sum.splits)
  from dcs have c: "map (\<lambda>r. first (classes r)) results = map Inr dcs"
    by (rule gather_Inr_D)
  from dss have s: "map (\<lambda>r. first (scores r)) results = map Inr dss"
    by (rule gather_Inr_D)
  have lc: "length dcs = length results" using arg_cong [OF c, of length] by simp
  have ls: "length dss = length results" using arg_cong [OF s, of length] by simp
  have len: "length df = length results" by (simp add: df lc ls)
  have nth: "\<And>k. k < length results \<Longrightarrow>
      first (classes (results ! k)) = Inr (dcs ! k) \<and> first (scores (results ! k)) = Inr (dss ! k)"
  proof -
    fix k assume k: "k < length results"
    have "map (\<lambda>r. first (classes r)) results ! k = map Inr dcs ! k" by (simp only: c)
    moreover have "map (\<lambda>r. first (scores r)) results ! k = map Inr dss ! k" by (simp only: s)
    ultimately show "first (classes (results ! k)) = Inr (dcs ! k)
        \<and> first (scores (results ! k)) = Inr (dss ! k)"
      using k lc ls by simp
  qed
  have rows: "\<And>k. k < length results \<Longrightarrow>
      classes (df ! k) = classes (results ! k) \<and> scores (df ! k) = scores (results ! k)
      \<and> detect_cls (df ! k) = dcs ! k \<and> detect_score (df ! k) = dss ! k"
    by (simp add: df lc ls)
  have "\<forall>r\<in>set df. first (classes r) = Inr (detect_cls r)
                       \<and> first (scores r) = Inr (detect_score r)"
  proof
    fix r assume "r \<in> set df"
    then obtain k where k: "k < length df" "r = df ! k" by (auto simp: in_set_conv_nth)
    with len rows [of k] nth [of k] show "first (classes r) = Inr (detect_cls r)
                       \<and> first (scores r) = Inr (detect_score r)" by simp
  qed
  moreover have "map classes df = map classes results"
    using len rows by (intro nth_equalityI) auto
  moreover have "map scores df = map scores results"
    using len rows by (intro nth_equalityI) auto
  ultimately show ?thesis using len by simp
qed

lemma add_detect_columns_total:
  assumes "results \<noteq> []" and "\<forall>r\<in>set results. classes r \<noteq> [] \<and> scores r \<noteq> []"
  shows "\<exists>df. add_detect_columns results = Inr df"
  using assms by (simp add: add_detect_columns_def gather_first)

subsection \<open>\<^verbatim>\<open>pdf_to_images\<close>\<close>

lemma int_of_char_le: "int_of_char c = Inr pn \<Longrightarrow> pn \<le> 9"
  by (auto simp: int_of_char_def split: if_splits)

lemma page_objs_gather:
  "page_objs E did td pname mt limit names =
     gather (map (page_obj E did td pname mt limit) names)"
  by (induction names) (auto split: sum.splits)

lemma page_obj_page_num:
  "page_obj E did td pname mt limit path = Inr it \<Longrightarrow>
     int_of_char (last path) = Inr (obj_page_num (obj_of it))"
  by (auto simp: page_obj_def Let_def split: sum.splits option.splits prod.splits)

lemma page_obj_meta:
  assumes "page_obj E did td pname (Some rows) limit path = Inr it"
  shows "\<exists>sz W H sw sh.
           image_open E path = Inr sz
           \<and> dims (obj_of it) = [0, 0, fst (resize_png E sz), snd (resize_png E sz)]
           \<and> subscript limit 2 = Inr W \<and> subscript limit 3 = Inr H
           \<and> truediv E (fst (resize_png E sz)) W = Inr sw
           \<and> truediv E (snd (resize_png E sz)) H = Inr sh
           \<and> orig_w (obj_of it) = W \<and> orig_h (obj_of it) = H
           \<and> meta (obj_of it) = Some (scale_meta (mul E) (obj_page_num (obj_of it)) sw sh rows)"
  using assms
  by (auto simp: page_obj_def Let_def split: sum.splits option.splits prod.splits)

lemma pdf_to_images_items:
  assumes "parse_pdf E fname = Inr (mt, limit)"
    and "pdf_to_images E did td (Some fname) = Inr (Some items)"
  shows "map (page_obj E did td (basename fname) mt limit)
           (page_images E td (basename fname) fname)
         = map Inr items"
  using assms
  by (auto simp: pdf_to_images_def Let_def page_objs_gather split: sum.splits dest: gather_Inr_D)

lemma scale_meta_nth:
  assumes "k < length rows"
  shows "scale_meta f pn sw sh rows ! k =
           (if page (rows ! k) = int pn - 1
            then (rows ! k)\<lparr>x1 := f (x1 (rows ! k)) sw, x2 := f (x2 (rows ! k)) sw,
                            y1 := f (y1 (rows ! k)) sh, y2 := f (y2 (rows ! k)) sh\<rparr>
            else rows ! k)"
  using assms by (simp add: scale_meta_def)

lemma fnmatch_page_iff:
  "fnmatch_page E pname x \<longleftrightarrow>
     (\<exists>body c. x = body @ ''_'' @ [c]
        \<and> (if has_magic pname then fnmatchcase E body pname else body = pname))"
proof
  assume m: "fnmatch_page E pname x"
  let ?n = "length x - 2"
  from m have l: "2 \<le> length x" and u: "x ! ?n = CHR ''_''"
    and b: "if has_magic pname then fnmatchcase E (take ?n x) pname else take ?n x = pname"
    by (simp_all add: fnmatch_page_def Let_def)
  from l have "length (drop ?n x) = Suc (Suc 0)" by simp
  then obtain a c where d: "drop ?n x = [a, c]"
    by (metis length_0_conv length_Suc_conv)
  have "a = drop ?n x ! 0" by (simp only: d nth_Cons_0)
  also have "\<dots> = x ! ?n" using l by simp
  finally have a: "a = CHR ''_''" by (simp only: u)
  have "x = take ?n x @ drop ?n x" by simp
  then have "x = take ?n x @ ''_'' @ [c]" by (simp only: d a) simp
  with b show "\<exists>body c. x = body @ ''_'' @ [c]
        \<and> (if has_magic pname then fnmatchcase E body pname else body = pname)"
    by blast
next
  assume "\<exists>body c. x = body @ ''_'' @ [c]
        \<and> (if has_magic pname then fnmatchcase E body pname else body = pname)"
  then obtain body c where x: "x = body @ ''_'' @ [c]"
    and b: "if has_magic pname then fnmatchcase E body pname else body = pname"
    by blast
  have "length x - 2 = length body" "x ! length body = CHR ''_''" "take (length body) x = body"
    by (simp_all add: x)
  with b show "fnmatch_page E pname x"
    by (simp add: fnmatch_page_def Let_def x)
qed

lemma fnmatch_page_plain:
  "\<not> has_magic pname \<Longrightarrow> fnmatch_page E pname x \<longleftrightarrow> (\<exists>c. x = pname @ ''_'' @ [c])"
  by (auto simp: fnmatch_page_iff)

lemma fnmatch_page_not_hidden:
  assumes "\<not> has_magic pname" and "fnmatch_page E pname x"
  shows "ishidden (pname @ ''_?'') \<or> \<not> ishidden x"
proof -
  from assms obtain c where "x = pname @ ''_'' @ [c]"
    by (auto simp: fnmatch_page_plain)
  then show ?thesis by (cases pname) (auto simp: ishidden_def)
qed

lemma filter_hidden_fnmatch:
  assumes "\<not> has_magic pname"
  shows "filter (fnmatch_page E pname)
           (filter (\<lambda>x. ishidden (pname @ ''_?'') \<or> \<not> ishidden x) files) =
         filter (fnmatch_page E pname) files"
  using fnmatch_page_not_hidden [OF assms, of E] by (induction files) auto

lemma page_images_literal:
  assumes "\<not> has_magic (glob_dirname (fmt_opt td))" and "\<not> has_magic pname"
  shows "page_images E td pname fname =
           map (path_join (glob_dirname (fmt_opt td)))
             (filter (fnmatch_page E pname) (gs E (glob_dirname (fmt_opt td)) fname))"
  using assms
  by (simp add: page_images_def Let_def filter_hidden_fnmatch del: filter_filter)

lemma page_images_shape:
  assumes "x \<in> set (page_images E td pname fname)"
  shows "\<exists>d body c. x = path_join d (body @ ''_'' @ [c])"
proof -
  from assms obtain d y where "x = path_join d y" "fnmatch_page E pname y"
    by (auto simp: page_images_def Let_def)
  then show ?thesis by (auto simp: fnmatch_page_iff)
qed

lemma last_path_join: "x \<noteq> [] \<Longrightarrow> last (path_join d x) = last x"
  by (simp add: path_join_def)

lemma ex_env_fields:
  "parse_pdf ex_env ''in/a.pdf'' =
     Inr (Some [\<lparr>page = 0, x1 = 10, y1 = 20, x2 = 30, y2 = 40, span = ''s''\<rparr>,
                \<lparr>page = 1, x1 = 1, y1 = 2, x2 = 3, y2 = 4, span = ''t''\<rparr>],
          Some [0, 0, 600, 800])"
  "parse_pdf ex_env ''in/bad.pdf'' = Inl (PyException ''corrupt'')"
  "parse_pdf ex_env ''in/c.pdf'' = Inr (None, None)"
  "gs ex_env d f = [''a.pdf_1'', ''c.pdf_1'']"
  "image_open ex_env p = Inr (5000, 6600)"
  "resize_png ex_env sz = (1200, 1600)"
  "truediv ex_env a b = (if b = 0 then Inl ZeroDivisionError else Inr (a / b))"
  "mul ex_env a b = a * b"
  by (simp_all add: ex_env_def)

lemma page_images_plain:
  assumes "gs E ''tmp/images'' f = files"
  shows "page_images E (Some ''tmp/images'') ''a.pdf'' f =
           map (path_join ''tmp/images'') (filter (fnmatch_page E ''a.pdf'') files)"
    and "page_images E (Some ''tmp/images'') ''c.pdf'' f =
           map (path_join ''tmp/images'') (filter (fnmatch_page E ''c.pdf'') files)"
proof -
  have d: "glob_dirname (fmt_opt (Some ''tmp/images'')) = ''tmp/images''"
    by (simp add: glob_dirname_def fmt_opt_def)
  have m: "\<not> has_magic (glob_dirname (fmt_opt (Some ''tmp/images'')))"
    "\<not> has_magic ''a.pdf''" "\<not> has_magic ''c.pdf''"
    by (simp_all add: d has_magic_def)
  show "page_images E (Some ''tmp/images'') ''a.pdf'' f =
           map (path_join ''tmp/images'') (filter (fnmatch_page E ''a.pdf'') files)"
    using page_images_literal [OF m(1) m(2), of E f] by (simp only: d assms)
  show "page_images E (Some ''tmp/images'') ''c.pdf'' f =
           map (path_join ''tmp/images'') (filter (fnmatch_page E ''c.pdf'') files)"
    using page_images_literal [OF m(1) m(3), of E f] by (simp only: d assms)
qed

lemma ex_pdf_to_images_a:
  "pdf_to_images ex_env ''ds'' (Some ''tmp/images'') (Some ''in/a.pdf'') = Inr (Some [ex_page])"
  by (simp add: pdf_to_images_def ex_env_fields page_images_plain [OF ex_env_fields(4)]
      fnmatch_page_plain has_magic_def path_join_def ex_page_def basename_def page_obj_def int_of_char_def
      subscript_def scale_meta_def Let_def)

lemma length_str_of_nat: "length (str_of_nat k) = 1 \<longleftrightarrow> k < 10"
proof (cases "k < 10")
  case True
  then show ?thesis by (simp add: str_of_nat.simps)
next
  case False
  have "str_of_nat (k div 10) \<noteq> []"
    by (subst str_of_nat.simps) simp
  with False show ?thesis
    by (subst str_of_nat.simps) simp
qed

lemma int_of_digit_char: "k < 10 \<Longrightarrow> int_of_char (digit_char k) = Inr k"
proof -
  assume "k < 10"
  then have "k \<in> set [0..<10]" by simp
  moreover have "\<forall>j\<in>set [0..<10]. int_of_char (digit_char j) = Inr j"
    by (simp add: upt_rec digit_char_def int_of_char_def)
  ultimately show ?thesis by blast
qed

lemma digit_char_not_underscore: "k < 10 \<Longrightarrow> digit_char k \<noteq> CHR ''_''"
  using int_of_digit_char [of k] by (auto simp: int_of_char_def)

lemma last_str_of_nat: "last (str_of_nat k) = digit_char (k mod 10)"
  by (subst str_of_nat.simps) simp

lemma str_of_nat_two_digits:
  assumes "10 \<le> k"
  shows "\<exists>s a b. str_of_nat k = s @ [a, b] \<and> a \<noteq> CHR ''_''"
proof -
  have ne: "str_of_nat (k div 10) \<noteq> []"
    by (subst str_of_nat.simps) simp
  have k: "str_of_nat k = str_of_nat (k div 10) @ [digit_char (k mod 10)]"
    using assms by (subst str_of_nat.simps) simp
  have "str_of_nat (k div 10) = butlast (str_of_nat (k div 10)) @ [last (str_of_nat (k div 10))]"
    using ne by simp
  then have "str_of_nat k = butlast (str_of_nat (k div 10))
      @ [digit_char ((k div 10) mod 10), digit_char (k mod 10)]"
    by (simp only: k last_str_of_nat) simp
  moreover have "digit_char ((k div 10) mod 10) \<noteq> CHR ''_''"
    by (rule digit_char_not_underscore) simp
  ultimately show ?thesis by blast
qed

lemma fnmatch_page_ten: "10 \<le> k \<Longrightarrow> \<not> fnmatch_page E pname (y @ ''_'' @ str_of_nat k)"
proof
  assume "10 \<le> k" and m: "fnmatch_page E pname (y @ ''_'' @ str_of_nat k)"
  then obtain s a b where s: "str_of_nat k = s @ [a, b]" and a: "a \<noteq> CHR ''_''"
    using str_of_nat_two_digits by blast
  from m obtain body c where "y @ ''_'' @ str_of_nat k = body @ ''_'' @ [c]"
    by (auto simp: fnmatch_page_iff)
  then have "(y @ ''_'' @ s) @ [a, b] = body @ [CHR ''_'', c]"
    by (simp add: s)
  then have "[a, b] = [CHR ''_'', c]"
    by (metis append_eq_append_conv length_Cons)
  with a show False by simp
qed

lemma fnmatch_page_digit:
  "\<not> has_magic pname \<Longrightarrow> k < 10 \<Longrightarrow> fnmatch_page E pname (pname @ ''_'' @ str_of_nat k)"
  by (simp add: fnmatch_page_plain str_of_nat.simps)

lemma last_page_file: "k < 10 \<Longrightarrow> int_of_char (last (prefix @ str_of_nat k)) = Inr k"
  by (simp add: str_of_nat.simps int_of_digit_char)

lemma page_files_12:
  "page_files p 12 = [p @ ''_1'', p @ ''_2'', p @ ''_3'', p @ ''_4'', p @ ''_5'', p @ ''_6'',
      p @ ''_7'', p @ ''_8'', p @ ''_9'', p @ ''_10'', p @ ''_11'', p @ ''_12'']"
  by (simp add: page_files_def upt_rec str_of_nat.simps digit_char_def)

lemma ex_gs_12:
  "gs ex_env12 d f = [''a.pdf_1'', ''c.pdf_1.pkl''] @ page_files ''c.pdf'' 12"
  by (simp add: ex_env12_def)

lemma ex_env12_fields:
  "parse_pdf ex_env12 = parse_pdf ex_env" "image_open ex_env12 = image_open ex_env"
  "resize_png ex_env12 = resize_png ex_env"
  by (simp_all add: ex_env12_def)

lemma ex_pages_12:
  "\<exists>items. pdf_to_images ex_env12 ''ds'' (Some ''tmp/images'') (Some ''in/c.pdf'') = Inr (Some items)"
  by (simp add: pdf_to_images_def page_images_plain [OF ex_gs_12] page_files_12
      ex_env12_fields ex_env_fields fnmatch_page_plain has_magic_def path_join_def basename_def page_obj_def
      int_of_char_def Let_def)

subsection \<open>The small run, evaluated\<close>

lemma ex_pdf_to_images_bad:
  "pdf_to_images ex_env ''ds'' (Some ''tmp/images'') (Some ''in/bad.pdf'') = Inr (Some [])"
  by (simp add: pdf_to_images_def ex_env_def)

lemma ex_pdf_to_images_c:
  "pdf_to_images ex_env ''ds'' (Some ''tmp/images'') (Some ''in/c.pdf'') = Inr (Some [ex_page_c])"
  by (simp add: pdf_to_images_def ex_env_fields page_images_plain [OF ex_env_fields(4)]
      fnmatch_page_plain has_magic_def path_join_def ex_page_c_def basename_def page_obj_def int_of_char_def
      Let_def)

lemma ex_pages_in:
  "pages ex_env ''ds'' ''tmp/images'' (get_pdf_names ex_env ''in'') = Inr [ex_page, ex_page_c]"
proof -
  have "get_pdf_names ex_env ''in'' = [Some ''in/a.pdf'', Some ''in/bad.pdf'', Some ''in/c.pdf'']"
    by (simp add: ex_env_def)
  then show ?thesis
    by (simp add: pages_def ex_pdf_to_images_a ex_pdf_to_images_bad ex_pdf_to_images_c)
qed

lemma ex_stage_fns:
  "propose_and_pad ex_env v = Inr" "detect ex_env = ex_detect" "regroup ex_env = Inr"
  "pool_text ex_env s = Inr" "xgboost_postprocess ex_env = ex_postprocess"
  "rules_postprocess ex_env = Inr"
  by (simp_all add: ex_env_def)

lemma ex_table_no_postprocess:
  "table ex_env (init True tmp False rules) False True [ex_page, ex_page_c] = Inr ex_df"
  by (simp add: table_def spec_stages_def init_def ex_stage_fns ex_detect_def ex_page_def
      ex_page_c_def load_obj_def collect_obj_def final_obj_of_def ex_detections_def
      add_detect_columns_def first_def ex_df_def ex_df_rows_def)

lemma ex_run_rules_without_xgboost:
  "ingest_local ex_env (init True (Some ''tmp'') False rules) ''in'' ''ds'' ''out'' False True []
     ex_world =
   (Inr (),
    \<lparr>submitted = replicate 3 (PdfToImages, Process)
                  @ replicate 2 (Stage (ProposeAndPad False), Process)
                  @ replicate 2 (Stage Detect, GPU)
                  @ replicate 2 (Stage Regroup, Process)
                  @ replicate 2 (Stage (PoolText True), Process),
     written = [(''out/ds.parquet'', ResultTable ex_df)],
     removed = [''tmp'']\<rparr>)"
proof -
  have n: "length (get_pdf_names ex_env ''in'') = 3" by (simp add: ex_env_def)
  have i: "images_tmp (init True (Some ''tmp'') False rules) = Some ''tmp/images''"
      "tmp_dir (init True (Some ''tmp'') False rules) = Some ''tmp''"
    by (simp_all add: init_def path_join_def)
  have s: "spec_stages (init True (Some ''tmp'') False rules) False True =
             [ProposeAndPad False, Detect, Regroup, PoolText True]"
    by (simp add: spec_stages_def init_def)
  show ?thesis
    by (simp add: ingest_local_eq i n s ex_pages_in ex_table_no_postprocess Let_def
        ex_world_def path_join_def eval_nat_numeral)
qed

subsection \<open>Failures and the aggregations\<close>

lemma agg_outcome_append:
  "agg_outcome E df pre = Inr () \<Longrightarrow> agg_outcome E df (pre @ rest) = agg_outcome E df rest"
  by (induction pre) (auto split: sum.splits)

lemma agg_writes_append:
  "agg_outcome E df pre = Inr () \<Longrightarrow>
     agg_writes E did rp df (pre @ rest) = agg_writes E did rp df pre @ agg_writes E did rp df rest"
  by (induction pre) (auto split: sum.splits)

lemma pdf_to_images_parse_failure:
  "parse_pdf E f = Inl e \<Longrightarrow> pdf_to_images E did td (Some f) = Inr (Some [])"
  by (simp add: pdf_to_images_def)

lemma pages_without_bad:
  assumes "parse_pdf E bad = Inl e"
  shows "pages E did itmp (pre @ Some bad # post) = pages E did itmp (pre @ post)"
  using pdf_to_images_parse_failure [OF assms, of did "Some itmp"]
  by (simp add: pages_def gather_append split: sum.splits)

lemma ex_run_unknown_aggregation:
  "ingest_local ex_env (init True (Some ''tmp'') False False) ''in'' ''ds'' ''out'' False True
     [''count'', ''nope''] ex_world =
   (Inl (KeyError ''nope''),
    \<lparr>submitted = replicate 3 (PdfToImages, Process)
                  @ replicate 2 (Stage (ProposeAndPad False), Process)
                  @ replicate 2 (Stage Detect, GPU)
                  @ replicate 2 (Stage Regroup, Process)
                  @ replicate 2 (Stage (PoolText True), Process),
     written = [(''out/ds_count.parquet'', AggregateTable 4)],
     removed = []\<rparr>)"
proof -
  have n: "length (get_pdf_names ex_env ''in'') = 3" by (simp add: ex_env_def)
  have i: "images_tmp (init True (Some ''tmp'') False False) = Some ''tmp/images''"
      "tmp_dir (init True (Some ''tmp'') False False) = Some ''tmp''"
    by (simp_all add: init_def path_join_def)
  have s: "spec_stages (init True (Some ''tmp'') False False) False True =
             [ProposeAndPad False, Detect, Regroup, PoolText True]"
    by (simp add: spec_stages_def init_def)
  have a: "aggregate_router ex_env ex_df ''count'' = Inr 4"
      "aggregate_router ex_env ex_df ''nope'' = Inl (KeyError ''nope'')"
    by (simp_all add: ex_env_def ex_df_def ex_df_rows_def)
  show ?thesis
    by (simp add: ingest_local_eq i n s a ex_pages_in ex_table_no_postprocess Let_def
        ex_world_def path_join_def eval_nat_numeral)
qed

lemma ex_gs_x: "gs ex_env_x d f = [''a.pdf_x'']"
  by (simp add: ex_env_x_def)

lemma ex_env_x_fields:
  "parse_pdf ex_env_x = parse_pdf ex_env" "image_open ex_env_x = image_open ex_env"
  "resize_png ex_env_x = resize_png ex_env" "get_pdf_names ex_env_x = get_pdf_names ex_env"
  by (simp_all add: ex_env_x_def)

lemma ex_pdf_to_images_x:
  "pdf_to_images ex_env_x ''ds'' (Some ''tmp/images'') (Some ''in/a.pdf'') =
     Inl (PyException ''tmp/images/a.pdf_x'')"
  by (simp add: pdf_to_images_def page_images_plain [OF ex_gs_x] ex_env_x_fields ex_env_fields
      fnmatch_page_plain has_magic_def path_join_def basename_def page_obj_def int_of_char_def Let_def)

lemma ex_gs_img: "gs ex_env_img d f = [''a.pdf_1'', ''c.pdf_1'']"
  by (simp add: ex_env_img_def ex_env_fields)

lemma ex_env_img_fields:
  "parse_pdf ex_env_img = parse_pdf ex_env" "resize_png ex_env_img = resize_png ex_env"
  "truediv ex_env_img = truediv ex_env" "mul ex_env_img = mul ex_env"
  "get_pdf_names ex_env_img = get_pdf_names ex_env"
  "image_open ex_env_img p =
     (if p = ''tmp/images/c.pdf_1'' then Inl (PyException ''cannot identify image file'')
      else Inr (5000, 6600))"
  by (simp_all add: ex_env_img_def)

lemma ex_pdf_to_images_img_a:
  "pdf_to_images ex_env_img ''ds'' (Some ''tmp/images'') (Some ''in/a.pdf'') =
     Inr (Some [ex_page])"
  by (simp add: pdf_to_images_def page_images_plain [OF ex_gs_img] ex_env_img_fields
      ex_env_fields fnmatch_page_plain has_magic_def path_join_def ex_page_def basename_def page_obj_def
      int_of_char_def subscript_def scale_meta_def Let_def)

lemma ex_pdf_to_images_img_c:
  "pdf_to_images ex_env_img ''ds'' (Some ''tmp/images'') (Some ''in/c.pdf'') =
     Inl (PyException ''cannot identify image file'')"
  by (simp add: pdf_to_images_def page_images_plain [OF ex_gs_img] ex_env_img_fields
      ex_env_fields fnmatch_page_plain has_magic_def path_join_def basename_def page_obj_def int_of_char_def
      Let_def)

lemma ex_run_undecodable:
  "ingest_local ex_env_img (init True (Some ''tmp'') False False) ''in'' ''ds'' ''out'' False True
     [] ex_world =
   (Inl (PyException ''cannot identify image file''),
    \<lparr>submitted = replicate 3 (PdfToImages, Process), written = [], removed = []\<rparr>)"
proof -
  have n: "get_pdf_names ex_env_img ''in'' =
      [Some ''in/a.pdf'', Some ''in/bad.pdf'', Some ''in/c.pdf'']"
    by (simp add: ex_env_img_def ex_env_def)
  have b: "pdf_to_images ex_env_img ''ds'' (Some ''tmp/images'') (Some ''in/bad.pdf'') =
      Inr (Some [])"
    by (simp add: pdf_to_images_def ex_env_img_fields ex_env_fields)
  have i: "images_tmp (init True (Some ''tmp'') False False) = Some ''tmp/images''"
    by (simp add: init_def path_join_def)
  show ?thesis
    by (simp add: ingest_local_eq i n pages_def ex_pdf_to_images_img_a b ex_pdf_to_images_img_c
        Let_def ex_world_def eval_nat_numeral)
qed

lemma ex_run_bad_raster:
  "ingest_local ex_env_x (init True (Some ''tmp'') False False) ''in'' ''ds'' ''out'' False True
     [] ex_world =
   (Inl (PyException ''tmp/images/a.pdf_x''),
    \<lparr>submitted = replicate 3 (PdfToImages, Process), written = [], removed = []\<rparr>)"
proof -
  have n: "get_pdf_names ex_env_x ''in'' =
      [Some ''in/a.pdf'', Some ''in/bad.pdf'', Some ''in/c.pdf'']"
    by (simp add: ex_env_x_def ex_env_def)
  have i: "images_tmp (init True (Some ''tmp'') False False) = Some ''tmp/images''"
    by (simp add: init_def path_join_def)
  show ?thesis
    by (simp add: ingest_local_eq i n pages_def ex_pdf_to_images_x Let_def ex_world_def
        eval_nat_numeral)
qed

section \<open>The claims\<close>

subsection \<open>Entry point\<close>

text \<open>
  Claim C10. On an \<^verbatim>\<open>Ingest\<close> object whose \<^verbatim>\<open>tmp_dir\<close> is \<^verbatim>\<open>None\<close>, \<^verbatim>\<open>ingest\<close> raises
  \<^verbatim>\<open>NotImplementedError\<close> and nothing has happened (the world is the one it was called
  in: no task submitted, no file written); with a tmp directory it is the local path
  \<^verbatim>\<open>_ingest_local\<close>.
\<close>

theorem ingest_requires_tmp_dir:
  "(tmp_dir self = None \<longrightarrow>
      ingest E self dir did rp so vp ags W =
        (Inl (NotImplementedError
           ''Distributed setup currently not implemented via Ingest class. Set a tmp directory.''),
         W))
   \<and> (tmp_dir self \<noteq> None \<longrightarrow>
      ingest E self dir did rp so vp ags W = ingest_local E self dir did rp vp so ags W)"
  by (simp add: ingest_def ingest_distributed_def)

theorem ingest_requires_tmp_dir_witness:
  "tmp_dir (init True None False False) = None
   \<and> ingest ex_env (init True None False False) ''in'' ''ds'' ''out'' True False [] ex_world =
       (Inl (NotImplementedError
          ''Distributed setup currently not implemented via Ingest class. Set a tmp directory.''),
        ex_world)
   \<and> tmp_dir (init True (Some ''tmp'') False False) \<noteq> None
   \<and> ingest ex_env (init True (Some ''tmp'') False False) ''in'' ''ds'' ''out'' True False []
         ex_world =
       ingest_local ex_env (init True (Some ''tmp'') False False) ''in'' ''ds'' ''out'' False True
         [] ex_world"
  using ingest_requires_tmp_dir [of "init True None False False" ex_env "''in''" "''ds''"
          "''out''" True False "[]" ex_world]
        ingest_requires_tmp_dir [of "init True (Some ''tmp'') False False" ex_env "''in''" "''ds''"
          "''out''" True False "[]" ex_world]
  by (simp add: init_def)

subsection \<open>The collector\<close>

text \<open>
  Claim C4. For terminal work items that are pickles with a \<^verbatim>\<open>content\<close> list whose triples
  each carry at least one (score, class) pair, and whose postprocess output, when there is
  one, has an entry for every triple, the collector returns, in order, one row per triple
  of each item (\<open>spec_rows\<close>): the row carries the item's \<^verbatim>\<open>pdf_name\<close>, \<^verbatim>\<open>dataset_id\<close> and
  \<^verbatim>\<open>page_num\<close>, the triple's box, classes, scores and text, and the postprocess class and
  score at the triple's index, or \<^verbatim>\<open>None\<close> for both without a postprocess output. An item
  with no detection gives no row and no exception.
\<close>

theorem collector_explodes_detections:
  assumes "\<forall>i\<in>set images. \<exists>d p n obj cs.
             i = Pickled d p n obj \<and> obj_content obj = Some cs
             \<and> (\<forall>c\<in>set cs. fst (snd c) \<noteq> [])
             \<and> (\<forall>xs. xgboost_content obj = Some xs \<longrightarrow> length cs \<le> length xs)"
  shows "collect images = Inr (concat (map (\<lambda>i. spec_rows (obj_of i)) images))
         \<and> (\<forall>i\<in>set images. \<forall>cs. obj_content (obj_of i) = Some cs \<longrightarrow>
               length (spec_rows (obj_of i)) = length cs)"
proof
  show "collect images = Inr (concat (map (\<lambda>i. spec_rows (obj_of i)) images))"
    using assms
  proof (induction images)
    case Nil
    then show ?case by simp
  next
    case (Cons i images)
    from Cons.prems obtain d p n obj cs where i: "i = Pickled d p n obj"
      and cs: "obj_content obj = Some cs" "\<forall>c\<in>set cs. fst (snd c) \<noteq> []"
        "\<forall>xs. xgboost_content obj = Some xs \<longrightarrow> length cs \<le> length xs"
      by auto
    have "collect_obj obj = Inr (spec_rows obj)"
      using cs by (intro collect_obj_eq) auto
    moreover have "collect images = Inr (concat (map (\<lambda>i. spec_rows (obj_of i)) images))"
      using Cons.prems by (intro Cons.IH) auto
    ultimately show ?case by (simp add: i load_obj_def)
  qed
  show "\<forall>i\<in>set images. \<forall>cs. obj_content (obj_of i) = Some cs \<longrightarrow>
          length (spec_rows (obj_of i)) = length cs"
    by (simp add: length_spec_rows)
qed


theorem collector_explodes_detections_witness:
  "collect ex_terminal = Inr ex_rows
   \<and> map (\<lambda>i. length (spec_rows (obj_of i))) ex_terminal = [2, 0]"
proof -
  have h: "\<forall>i\<in>set ex_terminal. \<exists>d p n obj cs.
             i = Pickled d p n obj \<and> obj_content obj = Some cs
             \<and> (\<forall>c\<in>set cs. fst (snd c) \<noteq> [])
             \<and> (\<forall>xs. xgboost_content obj = Some xs \<longrightarrow> length cs \<le> length xs)"
    by (simp add: ex_terminal_def ex_obj_def ex_detections_def ex_xgboost_def)
  have "collect ex_terminal = Inr (concat (map (\<lambda>i. spec_rows (obj_of i)) ex_terminal))"
    using collector_explodes_detections [OF h] by simp
  moreover have "concat (map (\<lambda>i. spec_rows (obj_of i)) ex_terminal) = ex_rows"
    by (simp add: ex_terminal_def ex_obj_def ex_rows_def spec_rows_def spec_row_def
        ex_detections_def ex_xgboost_def enumerate_eq_zip upt_rec)
  moreover have "map (\<lambda>i. length (spec_rows (obj_of i))) ex_terminal = [2, 0]"
    by (simp add: ex_terminal_def ex_obj_def spec_rows_def ex_detections_def)
  ultimately show ?thesis by simp
qed

text \<open>
  Claim C2. Every row of the result table built from what the collector returns has
  \<^verbatim>\<open>classes\<close> and \<^verbatim>\<open>scores\<close> of one length, \<^verbatim>\<open>detect_cls\<close> is \<^verbatim>\<open>classes[0]\<close> and
  \<^verbatim>\<open>detect_score\<close> is \<^verbatim>\<open>scores[0]\<close> (both subscripts succeed); and the two columns can
  always be added when the collector returned at least one row.
\<close>

theorem rows_have_parallel_lists:
  assumes "collect images = Inr results"
  shows "(results \<noteq> [] \<longrightarrow> (\<exists>df. add_detect_columns results = Inr df))
         \<and> (\<forall>df. add_detect_columns results = Inr df \<longrightarrow>
               length df = length results
               \<and> (\<forall>r\<in>set df. length (classes r) = length (scores r)
                     \<and> first (classes r) = Inr (detect_cls r)
                     \<and> first (scores r) = Inr (detect_score r)))"
proof (intro conjI impI allI)
  assume "results \<noteq> []"
  moreover have "\<forall>r\<in>set results. classes r \<noteq> [] \<and> scores r \<noteq> []"
    using collect_shape [OF assms] by fastforce
  ultimately show "\<exists>df. add_detect_columns results = Inr df"
    by (rule add_detect_columns_total)
next
  fix df assume df: "add_detect_columns results = Inr df"
  show "length df = length results" using add_detect_columns_rows [OF df] by simp
  show "\<forall>r\<in>set df. length (classes r) = length (scores r)
                     \<and> first (classes r) = Inr (detect_cls r)
                     \<and> first (scores r) = Inr (detect_score r)"
  proof
    fix r assume r: "r \<in> set df"
    from add_detect_columns_rows [OF df]
    have m: "map classes df = map classes results" "map scores df = map scores results"
      and f: "first (classes r) = Inr (detect_cls r) \<and> first (scores r) = Inr (detect_score r)"
      using r by auto
    from r obtain k where k: "k < length df" "r = df ! k" by (auto simp: in_set_conv_nth)
    have lk: "k < length results" using k add_detect_columns_rows [OF df] by simp
    have "classes r = classes (results ! k)"
      using arg_cong [OF m(1), of "\<lambda>l. l ! k"] k lk by simp
    moreover have "scores r = scores (results ! k)"
      using arg_cong [OF m(2), of "\<lambda>l. l ! k"] k lk by simp
    moreover have "length (classes (results ! k)) = length (scores (results ! k))"
      using collect_shape [OF assms] lk by simp
    ultimately show "length (classes r) = length (scores r)
                     \<and> first (classes r) = Inr (detect_cls r)
                     \<and> first (scores r) = Inr (detect_score r)"
      using f by simp
  qed
qed

theorem rows_have_parallel_lists_witness:
  "collect ex_terminal = Inr ex_rows
   \<and> add_detect_columns ex_rows =
       Inr [\<lparr>pdf_name = ''a.pdf'', dataset_id = ''ds'', page_num = 1,
             bounding_box = [0, 0, 10, 20], classes = [''Figure'', ''Table''],
             scores = [9 / 10, 1 / 10], content = ''fig'',
             postprocess_cls = Some ''Figure'', postprocess_score = Some (19 / 20),
             detect_cls = ''Figure'', detect_score = 9 / 10\<rparr>,
            \<lparr>pdf_name = ''a.pdf'', dataset_id = ''ds'', page_num = 1,
             bounding_box = [5, 5, 50, 60], classes = [''Body Text''], scores = [3 / 4],
             content = ''txt'', postprocess_cls = Some ''Body Text'',
             postprocess_score = Some (4 / 5),
             detect_cls = ''Body Text'', detect_score = 3 / 4\<rparr>]"
  using rows_have_parallel_lists [OF collect_ex_terminal] collect_ex_terminal
  by (simp add: ex_rows_def add_detect_columns_def first_def)

subsection \<open>\<^verbatim>\<open>pdf_to_images\<close>\<close>

text \<open>
  Claim C5. For every page that \<^verbatim>\<open>pdf_to_images\<close> returns for a document with a geometry
  table, the original extents are \<^verbatim>\<open>limit[2]\<close> and \<^verbatim>\<open>limit[3]\<close> of the parsed page box
  (not the size of the decoded image), the scale of each axis is the rendered extent
  divided by that original extent, and every row of the table that belongs to the page
  (its \<^verbatim>\<open>page\<close> is \<^verbatim>\<open>page_num - 1\<close>) has \<^verbatim>\<open>x1\<close>, \<^verbatim>\<open>x2\<close> multiplied by the scale of the width and
  \<^verbatim>\<open>y1\<close>, \<^verbatim>\<open>y2\<close> by the scale of the height; the other rows are unchanged. Division and
  multiplication are those of the environment, whatever their rounding.
\<close>

theorem geometry_rescaled_from_page_box:
  assumes "parse_pdf E fname = Inr (Some rows, limit)"
    and "pdf_to_images E did td (Some fname) = Inr (Some items)"
    and "it \<in> set items"
  shows "\<exists>path sz w h W H scale_w scale_h m2.
           image_open E path = Inr sz \<and> resize_png E sz = (w, h)
           \<and> dims (obj_of it) = [0, 0, w, h]
           \<and> subscript limit 2 = Inr W \<and> subscript limit 3 = Inr H
           \<and> orig_w (obj_of it) = W \<and> orig_h (obj_of it) = H
           \<and> truediv E w W = Inr scale_w \<and> truediv E h H = Inr scale_h
           \<and> meta (obj_of it) = Some m2 \<and> length m2 = length rows
           \<and> (\<forall>k<length rows.
                 page (m2 ! k) = page (rows ! k) \<and> span (m2 ! k) = span (rows ! k)
                 \<and> (if page (rows ! k) = int (obj_page_num (obj_of it)) - 1
                    then x1 (m2 ! k) = mul E (x1 (rows ! k)) scale_w
                       \<and> x2 (m2 ! k) = mul E (x2 (rows ! k)) scale_w
                       \<and> y1 (m2 ! k) = mul E (y1 (rows ! k)) scale_h
                       \<and> y2 (m2 ! k) = mul E (y2 (rows ! k)) scale_h
                    else m2 ! k = rows ! k))"
proof -
  let ?names = "page_images E td (basename fname) fname"
  have m: "map (page_obj E did td (basename fname) (Some rows) limit) ?names = map Inr items"
    using assms(1,2) by (rule pdf_to_images_items)
  from assms(3) obtain j where j: "j < length items" "it = items ! j"
    by (auto simp: in_set_conv_nth)
  have len: "length ?names = length items"
    using arg_cong [OF m, of length] by simp
  have "map (page_obj E did td (basename fname) (Some rows) limit) ?names ! j = map Inr items ! j"
    by (simp only: m)
  then have po: "page_obj E did td (basename fname) (Some rows) limit (?names ! j) = Inr it"
    using j len by simp
  from page_obj_meta [OF po] obtain sz W H sw sh where
    f: "image_open E (?names ! j) = Inr sz"
      "dims (obj_of it) = [0, 0, fst (resize_png E sz), snd (resize_png E sz)]"
      "subscript limit 2 = Inr W" "subscript limit 3 = Inr H"
      "truediv E (fst (resize_png E sz)) W = Inr sw"
      "truediv E (snd (resize_png E sz)) H = Inr sh"
      "orig_w (obj_of it) = W" "orig_h (obj_of it) = H"
      "meta (obj_of it) = Some (scale_meta (mul E) (obj_page_num (obj_of it)) sw sh rows)"
    by blast
  let ?m2 = "scale_meta (mul E) (obj_page_num (obj_of it)) sw sh rows"
  have l: "length ?m2 = length rows" by (simp add: scale_meta_def)
  have r: "\<forall>k<length rows.
                 page (?m2 ! k) = page (rows ! k) \<and> span (?m2 ! k) = span (rows ! k)
                 \<and> (if page (rows ! k) = int (obj_page_num (obj_of it)) - 1
                    then x1 (?m2 ! k) = mul E (x1 (rows ! k)) sw
                       \<and> x2 (?m2 ! k) = mul E (x2 (rows ! k)) sw
                       \<and> y1 (?m2 ! k) = mul E (y1 (rows ! k)) sh
                       \<and> y2 (?m2 ! k) = mul E (y2 (rows ! k)) sh
                    else ?m2 ! k = rows ! k)"
    by (simp add: scale_meta_nth)
  have "resize_png E sz = (fst (resize_png E sz), snd (resize_png E sz))" by simp
  with f l r show ?thesis by blast
qed

theorem geometry_rescaled_from_page_box_witness:
  "parse_pdf ex_env ''in/a.pdf'' =
     Inr (Some [\<lparr>page = 0, x1 = 10, y1 = 20, x2 = 30, y2 = 40, span = ''s''\<rparr>,
                \<lparr>page = 1, x1 = 1, y1 = 2, x2 = 3, y2 = 4, span = ''t''\<rparr>],
          Some [0, 0, 600, 800])
   \<and> pdf_to_images ex_env ''ds'' (Some ''tmp/images'') (Some ''in/a.pdf'') = Inr (Some [ex_page])
   \<and> image_open ex_env ''tmp/images/a.pdf_1'' = Inr (5000, 6600)
   \<and> orig_w (obj_of ex_page) = 600 \<and> orig_h (obj_of ex_page) = 800
   \<and> dims (obj_of ex_page) = [0, 0, 1200, 1600]
   \<and> meta (obj_of ex_page) =
       Some [\<lparr>page = 0, x1 = 10 * (1200 / 600), y1 = 20 * (1600 / 800),
              x2 = 30 * (1200 / 600), y2 = 40 * (1600 / 800), span = ''s''\<rparr>,
             \<lparr>page = 1, x1 = 1, y1 = 2, x2 = 3, y2 = 4, span = ''t''\<rparr>]"
proof -
  have p: "parse_pdf ex_env ''in/a.pdf'' =
     Inr (Some [\<lparr>page = 0, x1 = 10, y1 = 20, x2 = 30, y2 = 40, span = ''s''\<rparr>,
                \<lparr>page = 1, x1 = 1, y1 = 2, x2 = 3, y2 = 4, span = ''t''\<rparr>],
          Some [0, 0, 600, 800])"
    by (simp add: ex_env_def)
  have i: "ex_page \<in> set [ex_page]" by simp
  from geometry_rescaled_from_page_box [OF p ex_pdf_to_images_a i] p ex_pdf_to_images_a
  show ?thesis by (simp add: ex_env_def ex_page_def)
qed

text \<open>
  Claim C9. For every document, the page number of every work item is at most 9: the
  work items are, in order, those of the files the glob returns, the page number is the
  digit that the last character of the file name is, and every such file is an entry
  that ends in an underscore and exactly one more character. The file that Ghostscript
  writes for page \<open>k\<close> under the template of line 214 is never such an entry when \<open>k\<close> is 10
  or more, so these pages are left out without an exception, whatever else the directory
  holds and whatever the names are. When neither the tmp directory nor the document name
  holds a wildcard character, the entries matched are exactly the document name, the
  underscore and one character, and every page from 1 to 9 whose file is in the tmp
  directory is collected.
\<close>

theorem only_single_character_pages:
  assumes "parse_pdf E fname = Inr (mt, limit)"
    and "pdf_to_images E did td (Some fname) = Inr (Some items)"
  shows "(\<forall>it\<in>set items. obj_page_num (obj_of it) \<le> 9)
         \<and> map (\<lambda>it. Inr (obj_page_num (obj_of it))) items =
             map (\<lambda>x. int_of_char (last x)) (page_images E td (basename fname) fname)
         \<and> (\<forall>x\<in>set (page_images E td (basename fname) fname).
               \<exists>d body c. x = path_join d (body @ ''_'' @ [c]))
         \<and> (\<forall>x. fnmatch_page E (basename fname) x \<longrightarrow> (\<exists>body c. x = body @ ''_'' @ [c]))
         \<and> (\<forall>k. 10 \<le> k \<longrightarrow>
               \<not> fnmatch_page E (basename fname) (basename fname @ ''_'' @ str_of_nat k))
         \<and> (\<not> has_magic (basename fname) \<longrightarrow>
               (\<forall>x. fnmatch_page E (basename fname) x
                      \<longleftrightarrow> (\<exists>c. x = basename fname @ ''_'' @ [c])))
         \<and> (\<not> has_magic (glob_dirname (fmt_opt td)) \<and> \<not> has_magic (basename fname) \<longrightarrow>
               page_images E td (basename fname) fname =
                 map (path_join (glob_dirname (fmt_opt td)))
                   (filter (fnmatch_page E (basename fname))
                      (gs E (glob_dirname (fmt_opt td)) fname))
               \<and> (\<forall>k. k < 10 \<and> basename fname @ ''_'' @ str_of_nat k
                                  \<in> set (gs E (glob_dirname (fmt_opt td)) fname) \<longrightarrow>
                     k \<in> (\<lambda>it. obj_page_num (obj_of it)) ` set items))"
proof -
  let ?pname = "basename fname"
  let ?names = "page_images E td ?pname fname"
  have m: "map (page_obj E did td ?pname mt limit) ?names = map Inr items"
    using assms by (rule pdf_to_images_items)
  have len: "length ?names = length items"
    using arg_cong [OF m, of length] by simp
  have po: "\<And>j. j < length items \<Longrightarrow>
      page_obj E did td ?pname mt limit (?names ! j) = Inr (items ! j)"
  proof -
    fix j assume j: "j < length items"
    have "map (page_obj E did td ?pname mt limit) ?names ! j = map Inr items ! j"
      by (simp only: m)
    then show "page_obj E did td ?pname mt limit (?names ! j) = Inr (items ! j)"
      using j len by simp
  qed
  have c1: "\<forall>it\<in>set items. obj_page_num (obj_of it) \<le> 9"
  proof
    fix it assume "it \<in> set items"
    then obtain j where j: "j < length items" "it = items ! j"
      by (auto simp: in_set_conv_nth)
    from page_obj_page_num [OF po [OF j(1)]] j(2)
    show "obj_page_num (obj_of it) \<le> 9" by (auto dest: int_of_char_le)
  qed
  have c2: "map (\<lambda>it. Inr (obj_page_num (obj_of it))) items =
              map (\<lambda>x. int_of_char (last x)) ?names"
  proof (rule nth_equalityI)
    show "length (map (\<lambda>it. Inr (obj_page_num (obj_of it))) items) =
            length (map (\<lambda>x. int_of_char (last x)) ?names)"
      using len by simp
  next
    fix j assume "j < length (map (\<lambda>it. Inr (obj_page_num (obj_of it))) items)"
    then have j: "j < length items" by simp
    from page_obj_page_num [OF po [OF j]]
    show "map (\<lambda>it. Inr (obj_page_num (obj_of it))) items ! j =
            map (\<lambda>x. int_of_char (last x)) ?names ! j"
      using j len by simp
  qed
  have c3: "\<forall>x\<in>set ?names. \<exists>d body c. x = path_join d (body @ ''_'' @ [c])"
    using page_images_shape by blast
  have c4: "\<forall>x. fnmatch_page E ?pname x \<longrightarrow> (\<exists>body c. x = body @ ''_'' @ [c])"
    by (auto simp: fnmatch_page_iff)
  have c5: "\<forall>k. 10 \<le> k \<longrightarrow> \<not> fnmatch_page E ?pname (?pname @ ''_'' @ str_of_nat k)"
    using fnmatch_page_ten by blast
  have c6: "\<not> has_magic ?pname \<longrightarrow>
      (\<forall>x. fnmatch_page E ?pname x \<longleftrightarrow> (\<exists>c. x = ?pname @ ''_'' @ [c]))"
    using fnmatch_page_plain by blast
  have c7: "\<not> has_magic (glob_dirname (fmt_opt td)) \<and> \<not> has_magic ?pname \<longrightarrow>
               ?names = map (path_join (glob_dirname (fmt_opt td)))
                   (filter (fnmatch_page E ?pname) (gs E (glob_dirname (fmt_opt td)) fname))
               \<and> (\<forall>k. k < 10 \<and> ?pname @ ''_'' @ str_of_nat k
                                  \<in> set (gs E (glob_dirname (fmt_opt td)) fname) \<longrightarrow>
                     k \<in> (\<lambda>it. obj_page_num (obj_of it)) ` set items)"
  proof (intro impI conjI allI)
    assume plain: "\<not> has_magic (glob_dirname (fmt_opt td)) \<and> \<not> has_magic ?pname"
    let ?d = "glob_dirname (fmt_opt td)"
    show names: "?names = map (path_join ?d) (filter (fnmatch_page E ?pname) (gs E ?d fname))"
      using plain by (simp add: page_images_literal)
    fix k :: nat
    assume k: "k < 10 \<and> ?pname @ ''_'' @ str_of_nat k \<in> set (gs E ?d fname)"
    let ?x = "?pname @ ''_'' @ str_of_nat k"
    have "fnmatch_page E ?pname ?x"
    proof (rule fnmatch_page_digit)
      show "\<not> has_magic ?pname" using plain by simp
      show "k < 10" using k by simp
    qed
    with k have "?x \<in> set (filter (fnmatch_page E ?pname) (gs E ?d fname))" by simp
    then have "path_join ?d ?x \<in> path_join ?d ` set (filter (fnmatch_page E ?pname) (gs E ?d fname))"
      by (rule imageI)
    then have "path_join ?d ?x \<in> set ?names"
      by (simp only: names set_map)
    then have "int_of_char (last (path_join ?d ?x)) \<in> (\<lambda>x. int_of_char (last x)) ` set ?names"
      by (rule imageI)
    then have mem: "int_of_char (last (path_join ?d ?x))
        \<in> set (map (\<lambda>it. Inr (obj_page_num (obj_of it))) items)"
      by (simp only: c2 set_map)
    have "?x \<noteq> []" by simp
    then have "last (path_join ?d ?x) = last ?x" by (rule last_path_join)
    moreover have "int_of_char (last ?x) = Inr k"
      using k last_page_file [of k "?pname @ ''_''"] by simp
    ultimately have "int_of_char (last (path_join ?d ?x)) = Inr k" by simp
    with mem have "(Inr k :: exn + nat) \<in> set (map (\<lambda>it. Inr (obj_page_num (obj_of it))) items)"
      by simp
    then show "k \<in> (\<lambda>it. obj_page_num (obj_of it)) ` set items" by auto
  qed
  from c1 c2 c3 c4 c5 c6 c7 show ?thesis by (intro conjI)
qed

theorem only_single_character_pages_witness:
  "parse_pdf ex_env12 ''in/c.pdf'' = Inr (None, None)
   \<and> glob_dirname (fmt_opt (Some ''tmp/images'')) = ''tmp/images''
   \<and> basename ''in/c.pdf'' = ''c.pdf''
   \<and> \<not> has_magic ''tmp/images'' \<and> \<not> has_magic ''c.pdf''
   \<and> gs ex_env12 ''tmp/images'' ''in/c.pdf'' =
       [''a.pdf_1'', ''c.pdf_1.pkl'', ''c.pdf_1'', ''c.pdf_2'', ''c.pdf_3'', ''c.pdf_4'',
        ''c.pdf_5'', ''c.pdf_6'', ''c.pdf_7'', ''c.pdf_8'', ''c.pdf_9'', ''c.pdf_10'',
        ''c.pdf_11'', ''c.pdf_12'']
   \<and> page_images ex_env12 (Some ''tmp/images'') ''c.pdf'' ''in/c.pdf'' =
       [''tmp/images/c.pdf_1'', ''tmp/images/c.pdf_2'', ''tmp/images/c.pdf_3'',
        ''tmp/images/c.pdf_4'', ''tmp/images/c.pdf_5'', ''tmp/images/c.pdf_6'',
        ''tmp/images/c.pdf_7'', ''tmp/images/c.pdf_8'', ''tmp/images/c.pdf_9'']
   \<and> (\<exists>items. pdf_to_images ex_env12 ''ds'' (Some ''tmp/images'') (Some ''in/c.pdf'')
                 = Inr (Some items)
              \<and> map (\<lambda>it. obj_page_num (obj_of it)) items = [1, 2, 3, 4, 5, 6, 7, 8, 9])"
proof -
  have p: "parse_pdf ex_env12 ''in/c.pdf'' = Inr (None, None)"
    by (simp add: ex_env12_def ex_env_fields)
  have d: "glob_dirname (fmt_opt (Some ''tmp/images'')) = ''tmp/images''"
    by (simp add: glob_dirname_def fmt_opt_def)
  have b: "basename ''in/c.pdf'' = ''c.pdf''"
    by (simp add: basename_def)
  have hm: "\<not> has_magic ''tmp/images''" "\<not> has_magic ''c.pdf''"
    by (simp_all add: has_magic_def)
  have g: "gs ex_env12 ''tmp/images'' ''in/c.pdf'' =
       [''a.pdf_1'', ''c.pdf_1.pkl'', ''c.pdf_1'', ''c.pdf_2'', ''c.pdf_3'', ''c.pdf_4'',
        ''c.pdf_5'', ''c.pdf_6'', ''c.pdf_7'', ''c.pdf_8'', ''c.pdf_9'', ''c.pdf_10'',
        ''c.pdf_11'', ''c.pdf_12'']"
    by (simp add: ex_gs_12 page_files_12)
  have im: "page_images ex_env12 (Some ''tmp/images'') ''c.pdf'' ''in/c.pdf'' =
       [''tmp/images/c.pdf_1'', ''tmp/images/c.pdf_2'', ''tmp/images/c.pdf_3'',
        ''tmp/images/c.pdf_4'', ''tmp/images/c.pdf_5'', ''tmp/images/c.pdf_6'',
        ''tmp/images/c.pdf_7'', ''tmp/images/c.pdf_8'', ''tmp/images/c.pdf_9'']"
    by (simp add: page_images_plain [OF ex_gs_12] page_files_12 fnmatch_page_plain hm
        path_join_def)
  from ex_pages_12 obtain items where
    i: "pdf_to_images ex_env12 ''ds'' (Some ''tmp/images'') (Some ''in/c.pdf'') = Inr (Some items)"
    by blast
  note t = only_single_character_pages [OF p i, THEN conjunct2, THEN conjunct1]
  from t have "map (\<lambda>it. Inr (obj_page_num (obj_of it))) items =
          map (\<lambda>x. int_of_char (last x))
            (page_images ex_env12 (Some ''tmp/images'') ''c.pdf'' ''in/c.pdf'')"
    by (simp only: b)
  also have "\<dots> = map Inr [1, 2, 3, 4, 5, 6, 7, 8, 9]"
    by (simp only: im) (simp add: int_of_char_def)
  finally have "map Inr (map (\<lambda>it. obj_page_num (obj_of it)) items) =
      (map Inr [1, 2, 3, 4, 5, 6, 7, 8, 9] :: (exn + nat) list)"
    by (simp add: comp_def)
  then have "map (\<lambda>it. obj_page_num (obj_of it)) items = [1, 2, 3, 4, 5, 6, 7, 8, 9]"
    by (simp only: inj_map_eq_map [OF inj_Inr])
  with i have "\<exists>items. pdf_to_images ex_env12 ''ds'' (Some ''tmp/images'') (Some ''in/c.pdf'')
                 = Inr (Some items)
              \<and> map (\<lambda>it. obj_page_num (obj_of it)) items = [1, 2, 3, 4, 5, 6, 7, 8, 9]"
    by (intro exI [of _ items] conjI)
  with p d b hm g im show ?thesis by (simp only: simp_thms)
qed

subsection \<open>The stage chain\<close>

text \<open>
  Claim C3 says that a run with the rule postprocess enabled and the classifier
  postprocess disabled raises a configuration error before any stage. It does not: the
  small run with these flags returns normally, after the proposal, detection, regroup
  and text pooling tasks, and writes the result table.
\<close>

theorem rules_flag_without_xgboost_counterexample:
  "ingest_local ex_env (init True (Some ''tmp'') False True) ''in'' ''ds'' ''out'' False True []
     ex_world =
   (Inr (),
    \<lparr>submitted = replicate 3 (PdfToImages, Process)
                  @ replicate 2 (Stage (ProposeAndPad False), Process)
                  @ replicate 2 (Stage Detect, GPU)
                  @ replicate 2 (Stage Regroup, Process)
                  @ replicate 2 (Stage (PoolText True), Process),
     written = [(''out/ds.parquet'', ResultTable ex_df)],
     removed = [''tmp'']\<rparr>)"
  by (rule ex_run_rules_without_xgboost)

text \<open>
  Claim C3, amended. With the classifier postprocess disabled the rule postprocess flag
  is ignored: the run is the run with that flag disabled, whatever the other arguments.
\<close>

theorem rules_flag_ignored_without_xgboost:
  assumes "\<not> use_xgboost_postprocess self"
  shows "ingest_local E self dir did rp v s ags W =
           ingest_local E (self\<lparr>use_rules_postprocess := False\<rparr>) dir did rp v s ags W"
proof -
  have sc: "\<And>images W. stage_chain E (self\<lparr>use_rules_postprocess := False\<rparr>) v s images W =
                          stage_chain E self v s images W"
    using assms by (simp add: stage_chain_eq spec_stages_def)
  have f: "images_tmp (self\<lparr>use_rules_postprocess := False\<rparr>) = images_tmp self"
    "tmp_dir (self\<lparr>use_rules_postprocess := False\<rparr>) = tmp_dir self"
    by simp_all
  show ?thesis unfolding ingest_local_def sc f by (rule refl)
qed

theorem rules_flag_ignored_without_xgboost_witness:
  "\<not> use_xgboost_postprocess (init True (Some ''tmp'') False True)
   \<and> ingest_local ex_env (init True (Some ''tmp'') False True) ''in'' ''ds'' ''out'' False True []
       ex_world =
     ingest_local ex_env (init True (Some ''tmp'') False False) ''in'' ''ds'' ''out'' False True []
       ex_world"
proof -
  have h: "\<not> use_xgboost_postprocess (init True (Some ''tmp'') False True)"
    by (simp add: init_def)
  have "(init True (Some ''tmp'') False True)\<lparr>use_rules_postprocess := False\<rparr> =
          init True (Some ''tmp'') False False"
    by (simp add: init_def)
  with rules_flag_ignored_without_xgboost [OF h, of ex_env "''in''" "''ds''" "''out''" False True
      "[]" ex_world] h
  show ?thesis by simp
qed

text \<open>
  Claim C6. The futures that the stage chain returns are, for every work item in order,
  the stage functions of \<open>spec_stages\<close> applied one after the other (text pooling with the
  skip-OCR flag), and one task per work item and stage is submitted, stage by stage in
  that order. The chain is a prefix of proposal, detection, regroup, text pooling,
  classifier postprocess, rule postprocess: it starts with the proposal; detection,
  regroup and text pooling are in it exactly when semantic detection is enabled; the
  classifier postprocess only with detection, the rule postprocess only with the
  classifier postprocess.
\<close>

theorem stage_chain_order:
  "fst (stage_chain E self v s images W) =
     map (apply_stages (map (stage_fn E) (spec_stages self v s))) images
   \<and> submitted (snd (stage_chain E self v s images W)) =
       submitted W @ concat (map (\<lambda>st. replicate (length images) (Stage st, stage_resource st))
                               (spec_stages self v s))
   \<and> (\<exists>k. spec_stages self v s =
            take k [ProposeAndPad v, Detect, Regroup, PoolText s,
                    XgboostPostprocess, RulesPostprocess])
   \<and> hd (spec_stages self v s) = ProposeAndPad v
   \<and> (Detect \<in> set (spec_stages self v s) \<longleftrightarrow> use_semantic_detection self)
   \<and> (Regroup \<in> set (spec_stages self v s) \<longleftrightarrow> use_semantic_detection self)
   \<and> (PoolText s \<in> set (spec_stages self v s) \<longleftrightarrow> use_semantic_detection self)
   \<and> (XgboostPostprocess \<in> set (spec_stages self v s) \<longrightarrow> Detect \<in> set (spec_stages self v s))
   \<and> (RulesPostprocess \<in> set (spec_stages self v s) \<longrightarrow>
        XgboostPostprocess \<in> set (spec_stages self v s))"
proof -
  have "\<exists>k. spec_stages self v s =
            take k [ProposeAndPad v, Detect, Regroup, PoolText s,
                    XgboostPostprocess, RulesPostprocess]"
  proof (cases "use_semantic_detection self")
    case False
    then have "spec_stages self v s =
        take 1 [ProposeAndPad v, Detect, Regroup, PoolText s, XgboostPostprocess, RulesPostprocess]"
      by (simp add: spec_stages_def)
    then show ?thesis by blast
  next
    case sem: True
    show ?thesis
    proof (cases "use_xgboost_postprocess self")
      case False
      with sem have "spec_stages self v s =
        take 4 [ProposeAndPad v, Detect, Regroup, PoolText s, XgboostPostprocess, RulesPostprocess]"
        by (simp add: spec_stages_def)
      then show ?thesis by blast
    next
      case xgb: True
      show ?thesis
      proof (cases "use_rules_postprocess self")
        case False
        with sem xgb have "spec_stages self v s =
          take 5 [ProposeAndPad v, Detect, Regroup, PoolText s, XgboostPostprocess, RulesPostprocess]"
          by (simp add: spec_stages_def)
        then show ?thesis by blast
      next
        case True
        with sem xgb have "spec_stages self v s =
          take 6 [ProposeAndPad v, Detect, Regroup, PoolText s, XgboostPostprocess, RulesPostprocess]"
          by (simp add: spec_stages_def)
        then show ?thesis by blast
      qed
    qed
  qed
  moreover have "hd (spec_stages self v s) = ProposeAndPad v"
    by (simp add: spec_stages_def)
  moreover have "Detect \<in> set (spec_stages self v s) \<longleftrightarrow> use_semantic_detection self"
    "Regroup \<in> set (spec_stages self v s) \<longleftrightarrow> use_semantic_detection self"
    "PoolText s \<in> set (spec_stages self v s) \<longleftrightarrow> use_semantic_detection self"
    "XgboostPostprocess \<in> set (spec_stages self v s) \<longrightarrow> Detect \<in> set (spec_stages self v s)"
    "RulesPostprocess \<in> set (spec_stages self v s) \<longrightarrow>
        XgboostPostprocess \<in> set (spec_stages self v s)"
    by (simp_all add: spec_stages_def)
  ultimately show ?thesis by (simp add: stage_chain_eq)
qed

theorem stage_chain_order_witness:
  "stage_chain ex_env (init True (Some ''tmp'') True True) False True [ex_page, ex_page_c] ex_world =
     (map (apply_stages [Inr, ex_detect, Inr, Inr, ex_postprocess, Inr]) [ex_page, ex_page_c],
      \<lparr>submitted = replicate 2 (Stage (ProposeAndPad False), Process)
                    @ replicate 2 (Stage Detect, GPU)
                    @ replicate 2 (Stage Regroup, Process)
                    @ replicate 2 (Stage (PoolText True), Process)
                    @ replicate 2 (Stage XgboostPostprocess, Process)
                    @ replicate 2 (Stage RulesPostprocess, Process),
       written = [], removed = []\<rparr>)
   \<and> spec_stages (init True (Some ''tmp'') True True) False True =
       [ProposeAndPad False, Detect, Regroup, PoolText True, XgboostPostprocess, RulesPostprocess]"
proof -
  have s: "spec_stages (init True (Some ''tmp'') True True) False True =
       [ProposeAndPad False, Detect, Regroup, PoolText True, XgboostPostprocess, RulesPostprocess]"
    by (simp add: spec_stages_def init_def)
  have w: "written (snd (stage_chain ex_env (init True (Some ''tmp'') True True) False True
              [ex_page, ex_page_c] ex_world)) = []"
      "removed (snd (stage_chain ex_env (init True (Some ''tmp'') True True) False True
              [ex_page, ex_page_c] ex_world)) = []"
    by (simp_all add: stage_chain_eq ex_world_def)
  from stage_chain_order [of ex_env "init True (Some ''tmp'') True True" False True
      "[ex_page, ex_page_c]" ex_world]
  have "fst (stage_chain ex_env (init True (Some ''tmp'') True True) False True
              [ex_page, ex_page_c] ex_world) =
          map (apply_stages [Inr, ex_detect, Inr, Inr, ex_postprocess, Inr]) [ex_page, ex_page_c]"
    and "submitted (snd (stage_chain ex_env (init True (Some ''tmp'') True True) False True
              [ex_page, ex_page_c] ex_world)) =
          replicate 2 (Stage (ProposeAndPad False), Process)
                    @ replicate 2 (Stage Detect, GPU)
                    @ replicate 2 (Stage Regroup, Process)
                    @ replicate 2 (Stage (PoolText True), Process)
                    @ replicate 2 (Stage XgboostPostprocess, Process)
                    @ replicate 2 (Stage RulesPostprocess, Process)"
    by (simp_all add: s ex_stage_fns ex_world_def eval_nat_numeral)
  with w s show ?thesis
    by (cases "stage_chain ex_env (init True (Some ''tmp'') True True) False True
              [ex_page, ex_page_c] ex_world") (simp add: world.equality)
qed

subsection \<open>The run\<close>

text \<open>
  Claim C7 says that an aggregation name that is not registered fails the run at startup,
  before any work is submitted. It does not: in the small run, where \<^verbatim>\<open>aggregate_router\<close>
  knows \<^verbatim>\<open>count\<close> only, the name \<^verbatim>\<open>nope\<close> fails the run after the rasterization tasks and
  all stage tasks have been submitted and after the aggregate \<^verbatim>\<open>count\<close> has been written.
\<close>

theorem unknown_aggregation_counterexample:
  "ingest_local ex_env (init True (Some ''tmp'') False False) ''in'' ''ds'' ''out'' False True
     [''count'', ''nope''] ex_world =
   (Inl (KeyError ''nope''),
    \<lparr>submitted = replicate 3 (PdfToImages, Process)
                  @ replicate 2 (Stage (ProposeAndPad False), Process)
                  @ replicate 2 (Stage Detect, GPU)
                  @ replicate 2 (Stage Regroup, Process)
                  @ replicate 2 (Stage (PoolText True), Process),
     written = [(''out/ds_count.parquet'', AggregateTable 4)],
     removed = []\<rparr>)"
  by (rule ex_run_unknown_aggregation)

text \<open>
  Claim C7, amended. The aggregation names are first looked at by \<^verbatim>\<open>aggregate_router\<close>,
  after rasterization, the stage chain and the collection: the tasks submitted do not
  depend on the names, and when the run without aggregations returns with the table
  \<open>df\<close>, the router accepts the names before \<open>a\<close> and raises \<open>e\<close> for \<open>a\<close>, the run raises
  \<open>e\<close> with the aggregates of the names before \<open>a\<close> written, the result table not written
  and the tmp directory not removed.
\<close>

theorem aggregation_names_looked_at_last:
  "submitted (snd (ingest_local E self dir did rp v s ags W)) =
     submitted (snd (ingest_local E self dir did rp v s [] W))
   \<and> (\<forall>df pre a post e.
         fst (ingest_local E self dir did rp v s [] W) = Inr () \<longrightarrow>
         snd (last (written (snd (ingest_local E self dir did rp v s [] W)))) = ResultTable df \<longrightarrow>
         ags = pre @ a # post \<longrightarrow>
         agg_outcome E df pre = Inr () \<longrightarrow>
         aggregate_router E df a = Inl e \<longrightarrow>
           fst (ingest_local E self dir did rp v s ags W) = Inl e
           \<and> written (snd (ingest_local E self dir did rp v s ags W)) =
               written W @ agg_writes E did rp df pre
           \<and> removed (snd (ingest_local E self dir did rp v s ags W)) = removed W)"
proof
  show "submitted (snd (ingest_local E self dir did rp v s ags W)) =
     submitted (snd (ingest_local E self dir did rp v s [] W))"
    by (simp add: ingest_local_eq Let_def split: option.splits sum.splits)
  show "\<forall>df pre a post e.
         fst (ingest_local E self dir did rp v s [] W) = Inr () \<longrightarrow>
         snd (last (written (snd (ingest_local E self dir did rp v s [] W)))) = ResultTable df \<longrightarrow>
         ags = pre @ a # post \<longrightarrow>
         agg_outcome E df pre = Inr () \<longrightarrow>
         aggregate_router E df a = Inl e \<longrightarrow>
           fst (ingest_local E self dir did rp v s ags W) = Inl e
           \<and> written (snd (ingest_local E self dir did rp v s ags W)) =
               written W @ agg_writes E did rp df pre
           \<and> removed (snd (ingest_local E self dir did rp v s ags W)) = removed W"
  proof (intro allI impI)
    fix df pre a post e
    assume ok: "fst (ingest_local E self dir did rp v s [] W) = Inr ()"
      and tab: "snd (last (written (snd (ingest_local E self dir did rp v s [] W)))) = ResultTable df"
      and ags: "ags = pre @ a # post"
      and pre: "agg_outcome E df pre = Inr ()"
      and a: "aggregate_router E df a = Inl e"
    from ok obtain itmp images df0 d where
      r: "images_tmp self = Some itmp" "pages E did itmp (get_pdf_names E dir) = Inr images"
         "table E self v s images = Inr df0" "tmp_dir self = Some d"
      by (auto simp: ingest_local_eq Let_def split: option.splits sum.splits)
    from tab r have "df0 = df"
      by (simp add: ingest_local_eq Let_def)
    with r have t: "table E self v s images = Inr df" by simp
    have o: "agg_outcome E df ags = Inl e"
      using pre a by (simp add: ags agg_outcome_append)
    have w: "agg_writes E did rp df ags = agg_writes E did rp df pre"
      using pre a by (simp add: ags agg_writes_append)
    show "fst (ingest_local E self dir did rp v s ags W) = Inl e
           \<and> written (snd (ingest_local E self dir did rp v s ags W)) =
               written W @ agg_writes E did rp df pre
           \<and> removed (snd (ingest_local E self dir did rp v s ags W)) = removed W"
      by (simp add: ingest_local_eq r(1,2) t o w Let_def)
  qed
qed


theorem aggregation_names_looked_at_last_witness:
  "fst (ingest_local ex_env (init True (Some ''tmp'') False False) ''in'' ''ds'' ''out'' False True
          [] ex_world) = Inr ()
   \<and> snd (last (written (snd (ingest_local ex_env (init True (Some ''tmp'') False False) ''in''
          ''ds'' ''out'' False True [] ex_world)))) = ResultTable ex_df
   \<and> agg_outcome ex_env ex_df [''count''] = Inr ()
   \<and> aggregate_router ex_env ex_df ''nope'' = Inl (KeyError ''nope'')
   \<and> fst (ingest_local ex_env (init True (Some ''tmp'') False False) ''in'' ''ds'' ''out'' False
          True [''count'', ''nope''] ex_world) = Inl (KeyError ''nope'')
   \<and> written (snd (ingest_local ex_env (init True (Some ''tmp'') False False) ''in'' ''ds'' ''out''
          False True [''count'', ''nope''] ex_world)) =
       [(''out/ds_count.parquet'', AggregateTable 4)]
   \<and> submitted (snd (ingest_local ex_env (init True (Some ''tmp'') False False) ''in'' ''ds''
          ''out'' False True [''count'', ''nope''] ex_world)) =
       submitted (snd (ingest_local ex_env (init True (Some ''tmp'') False False) ''in'' ''ds''
          ''out'' False True [] ex_world))"
proof -
  let ?run = "ingest_local ex_env (init True (Some ''tmp'') False False) ''in'' ''ds'' ''out''
                False True"
  have ok: "fst (?run [] ex_world) = Inr ()"
    and tab: "snd (last (written (snd (?run [] ex_world)))) = ResultTable ex_df"
    by (simp_all add: ex_run_rules_without_xgboost)
  have ags: "[''count'', ''nope''] = [''count''] @ ''nope'' # []" by simp
  have a: "aggregate_router ex_env ex_df ''nope'' = Inl (KeyError ''nope'')"
    by (simp add: ex_env_def)
  have pre: "agg_outcome ex_env ex_df [''count''] = Inr ()"
    by (simp add: ex_env_def)
  have w: "agg_writes ex_env ''ds'' ''out'' ex_df [''count''] =
             [(''out/ds_count.parquet'', AggregateTable 4)]"
    by (simp add: ex_env_def path_join_def ex_df_def ex_df_rows_def)
  from aggregation_names_looked_at_last [of ex_env "init True (Some ''tmp'') False False" "''in''"
      "''ds''" "''out''" False True "[''count'', ''nope'']" ex_world]
  have "submitted (snd (?run [''count'', ''nope''] ex_world)) = submitted (snd (?run [] ex_world))"
    and "fst (?run [''count'', ''nope''] ex_world) = Inl (KeyError ''nope'')
         \<and> written (snd (?run [''count'', ''nope''] ex_world)) =
               written ex_world @ agg_writes ex_env ''ds'' ''out'' ex_df [''count'']"
    using ok tab ags pre a by blast+
  with ok tab pre a w show ?thesis by (simp add: ex_world_def)
qed

text \<open>
  Claim C8 says that every failure of one item, malformed output of the rasterizing
  subprocess included, is absorbed and never fails the run. It is not: where Ghostscript
  leaves a file whose name ends in \<^verbatim>\<open>x\<close>, line 223 raises, the exception is re-raised by
  \<^verbatim>\<open>result()\<close> and the run fails with nothing but the rasterization tasks submitted.
\<close>

theorem rasterizer_output_failure_counterexample:
  "ingest_local ex_env_x (init True (Some ''tmp'') False False) ''in'' ''ds'' ''out'' False True
     [] ex_world =
   (Inl (PyException ''tmp/images/a.pdf_x''),
    \<lparr>submitted = replicate 3 (PdfToImages, Process), written = [], removed = []\<rparr>)"
  by (rule ex_run_bad_raster)

text \<open>
  Claim C8, amended. Only an exception of \<^verbatim>\<open>parse_pdf\<close> is absorbed: the document then
  gives an empty page list. A file name whose last character is no digit raises; and any
  exception of a rasterization task, or of a stage function on a work item, fails the
  run.
\<close>

theorem only_parse_failures_are_absorbed:
  assumes "images_tmp self = Some itmp"
  shows "(\<forall>f e. parse_pdf E f = Inl e \<longrightarrow>
            pdf_to_images E did (Some itmp) (Some f) = Inr (Some []))
         \<and> (\<forall>td pname mt limit path. int_of_char (last path) = Inl ValueError \<longrightarrow>
               page_obj E did td pname mt limit path = Inl (PyException path))
         \<and> (\<forall>p\<in>set (get_pdf_names E dir). \<forall>e.
               pdf_to_images E did (Some itmp) p = Inl e \<longrightarrow>
               (\<exists>e'. fst (ingest_local E self dir did rp v s ags W) = Inl e'))
         \<and> (\<forall>images. pages E did itmp (get_pdf_names E dir) = Inr images \<longrightarrow>
               (\<forall>i\<in>set images. \<forall>e.
                  apply_stages (map (stage_fn E) (spec_stages self v s)) i = Inl e \<longrightarrow>
                  (\<exists>e'. fst (ingest_local E self dir did rp v s ags W) = Inl e')))"
proof (intro conjI allI impI ballI)
  fix f e assume "parse_pdf E f = Inl e"
  then show "pdf_to_images E did (Some itmp) (Some f) = Inr (Some [])"
    by (rule pdf_to_images_parse_failure)
next
  fix td pname mt limit path
  assume "int_of_char (last path) = Inl ValueError"
  then show "page_obj E did td pname mt limit path = Inl (PyException path)"
    by (simp add: page_obj_def)
next
  fix p e
  assume "p \<in> set (get_pdf_names E dir)" and "pdf_to_images E did (Some itmp) p = Inl e"
  then have "Inl e \<in> set (map (pdf_to_images E did (Some itmp)) (get_pdf_names E dir))"
    by force
  from gather_fails [OF this] obtain e' where
    "gather (map (pdf_to_images E did (Some itmp)) (get_pdf_names E dir)) = Inl e'" by blast
  then have "pages E did itmp (get_pdf_names E dir) = Inl e'"
    by (simp add: pages_def)
  then have "fst (ingest_local E self dir did rp v s ags W) = Inl e'"
    using assms by (simp add: ingest_local_eq Let_def)
  then show "\<exists>e'. fst (ingest_local E self dir did rp v s ags W) = Inl e'" by blast
next
  fix images i e
  assume p: "pages E did itmp (get_pdf_names E dir) = Inr images"
    and "i \<in> set images"
    and "apply_stages (map (stage_fn E) (spec_stages self v s)) i = Inl e"
  then have "Inl e \<in> set (map (apply_stages (map (stage_fn E) (spec_stages self v s))) images)"
    by force
  from gather_fails [OF this] obtain e' where
    "gather (map (apply_stages (map (stage_fn E) (spec_stages self v s))) images) = Inl e'"
    by blast
  then have "table E self v s images = Inl e'"
    by (simp add: table_def)
  then have "fst (ingest_local E self dir did rp v s ags W) = Inl e'"
    using assms p by (simp add: ingest_local_eq Let_def)
  then show "\<exists>e'. fst (ingest_local E self dir did rp v s ags W) = Inl e'" by blast
qed

theorem only_parse_failures_are_absorbed_witness:
  "images_tmp (init True (Some ''tmp'') False False) = Some ''tmp/images''
   \<and> parse_pdf ex_env_x ''in/bad.pdf'' = Inl (PyException ''corrupt'')
   \<and> pdf_to_images ex_env_x ''ds'' (Some ''tmp/images'') (Some ''in/bad.pdf'') = Inr (Some [])
   \<and> Some ''in/a.pdf'' \<in> set (get_pdf_names ex_env_x ''in'')
   \<and> pdf_to_images ex_env_x ''ds'' (Some ''tmp/images'') (Some ''in/a.pdf'') =
       Inl (PyException ''tmp/images/a.pdf_x'')
   \<and> (\<exists>e'. fst (ingest_local ex_env_x (init True (Some ''tmp'') False False) ''in'' ''ds'' ''out''
               False True [] ex_world) = Inl e')"
proof -
  have i: "images_tmp (init True (Some ''tmp'') False False) = Some ''tmp/images''"
    by (simp add: init_def path_join_def)
  have b: "parse_pdf ex_env_x ''in/bad.pdf'' = Inl (PyException ''corrupt'')"
    by (simp add: ex_env_x_def ex_env_def)
  have m: "Some ''in/a.pdf'' \<in> set (get_pdf_names ex_env_x ''in'')"
    by (simp add: ex_env_x_def ex_env_def)
  note t = only_parse_failures_are_absorbed [OF i, of ex_env_x "''ds''" "''in''" "''out''" False
      True "[]" ex_world]
  from t b have "pdf_to_images ex_env_x ''ds'' (Some ''tmp/images'') (Some ''in/bad.pdf'') =
      Inr (Some [])" by blast
  moreover from t m ex_pdf_to_images_x
  have "\<exists>e'. fst (ingest_local ex_env_x (init True (Some ''tmp'') False False) ''in'' ''ds'' ''out''
               False True [] ex_world) = Inl e'" by blast
  ultimately show ?thesis using i b m ex_pdf_to_images_x by simp
qed

text \<open>
  Claim C1 says that a document whose rasterization or parse raises is excluded and that
  no exception escapes the run. That fails for a failure after parsing: in the small run
  where \<^verbatim>\<open>a.pdf\<close> rasterizes, \<^verbatim>\<open>bad.pdf\<close> does not parse and the page image of \<^verbatim>\<open>c.pdf\<close>
  cannot be decoded, the exception of the rasterization of \<^verbatim>\<open>c.pdf\<close> is re-raised by
  \<^verbatim>\<open>result()\<close> at line 77: it leaves the run, no stage task is submitted and no table is
  written.
\<close>

theorem undecodable_page_counterexample:
  "ingest_local ex_env_img (init True (Some ''tmp'') False False) ''in'' ''ds'' ''out'' False True
     [] ex_world =
   (Inl (PyException ''cannot identify image file''),
    \<lparr>submitted = replicate 3 (PdfToImages, Process), written = [], removed = []\<rparr>)"
  by (rule ex_run_undecodable)

text \<open>
  Claim C1, amended. A document that \<^verbatim>\<open>parse_pdf\<close> raises on gives an empty page list and
  no exception, and the run of a batch that holds it is the run of the batch without it:
  the same work items, the same outcome (an exception leaves the one if and only if it
  leaves the other), the same files written and directories removed, the same stage
  tasks. In the small run the second of three documents does not parse, and the table
  has the rows of the first and the third.
\<close>

theorem corrupt_document_is_excluded:
  assumes "parse_pdf E bad = Inl e"
    and "get_pdf_names E dir = pre @ Some bad # post"
    and "get_pdf_names E dir' = pre @ post"
  shows "pdf_to_images E did td (Some bad) = Inr (Some [])
         \<and> fst (rasterize E did itmp (get_pdf_names E dir) W) =
             fst (rasterize E did itmp (get_pdf_names E dir') W)
         \<and> fst (ingest_local E self dir did rp v s ags W) =
             fst (ingest_local E self dir' did rp v s ags W)
         \<and> written (snd (ingest_local E self dir did rp v s ags W)) =
             written (snd (ingest_local E self dir' did rp v s ags W))
         \<and> removed (snd (ingest_local E self dir did rp v s ags W)) =
             removed (snd (ingest_local E self dir' did rp v s ags W))
         \<and> filter (\<lambda>t. fst t \<noteq> PdfToImages)
               (submitted (snd (ingest_local E self dir did rp v s ags W))) =
             filter (\<lambda>t. fst t \<noteq> PdfToImages)
               (submitted (snd (ingest_local E self dir' did rp v s ags W)))"
proof -
  have p: "\<And>itmp. pages E did itmp (get_pdf_names E dir) = pages E did itmp (get_pdf_names E dir')"
    using pages_without_bad [OF assms(1)] by (simp add: assms(2,3))
  have "pdf_to_images E did td (Some bad) = Inr (Some [])"
    using assms(1) by (rule pdf_to_images_parse_failure)
  then show ?thesis
    by (simp add: ingest_local_eq rasterize_eq p Let_def split: option.splits sum.splits)
qed

theorem corrupt_document_is_excluded_witness:
  "parse_pdf ex_env ''in/bad.pdf'' = Inl (PyException ''corrupt'')
   \<and> get_pdf_names ex_env ''in'' = [Some ''in/a.pdf'', Some ''in/bad.pdf'', Some ''in/c.pdf'']
   \<and> get_pdf_names ex_env ''in2'' = [Some ''in/a.pdf'', Some ''in/c.pdf'']
   \<and> pdf_to_images ex_env ''ds'' (Some ''tmp/images'') (Some ''in/bad.pdf'') = Inr (Some [])
   \<and> fst (ingest_local ex_env (init True (Some ''tmp'') False False) ''in'' ''ds'' ''out'' False True
          [] ex_world) = Inr ()
   \<and> fst (ingest_local ex_env (init True (Some ''tmp'') False False) ''in2'' ''ds'' ''out'' False
          True [] ex_world) = Inr ()
   \<and> written (snd (ingest_local ex_env (init True (Some ''tmp'') False False) ''in2'' ''ds'' ''out''
          False True [] ex_world)) = [(''out/ds.parquet'', ResultTable ex_df)]
   \<and> map pdf_name ex_df = [''a.pdf'', ''a.pdf'', ''c.pdf'', ''c.pdf'']"
proof -
  have b: "parse_pdf ex_env ''in/bad.pdf'' = Inl (PyException ''corrupt'')"
    by (simp add: ex_env_def)
  have d: "get_pdf_names ex_env ''in'' = [Some ''in/a.pdf''] @ Some ''in/bad.pdf'' # [Some ''in/c.pdf'']"
    by (simp add: ex_env_def)
  have d': "get_pdf_names ex_env ''in2'' = [Some ''in/a.pdf''] @ [Some ''in/c.pdf'']"
    by (simp add: ex_env_def)
  from corrupt_document_is_excluded [OF b d d', where did = "''ds''"
      and td = "Some ''tmp/images''" and itmp = "''tmp/images''" and W = ex_world
      and self = "init True (Some ''tmp'') False False" and rp = "''out''" and v = False
      and s = True and ags = "[]"]
    ex_run_rules_without_xgboost [of False] b d d'
  show ?thesis by (simp add: ex_df_def ex_df_rows_def)
qed

end
